theory Spec2Isabelle
  imports
    Main
    "HOL-Library.Word"
    "HOL-Library.Product_Lexorder"
    "HOL-Library.Char_ord"
    "HOL-Library.List_Lexorder"
    "HOL-Library.Multiset"
begin

section \<open>Data model\<close>

text \<open>
  \<open>lldb::addr_t\<close> and \<open>lldb::user_id_t\<close> are 64-bit unsigned integers; arithmetic on
  them wraps. Positions in the symbol vector (\<open>uint32_t\<close> in the code) are only
  compared and used as subscripts, never computed with, and are natural numbers here.
  A \<open>ConstString\<close> handle is identified with the text it interns (equal handles are
  equal texts); the null handle and the empty text are both the empty string.
\<close>

type_synonym addr_t = "64 word"
type_synonym user_id_t = "64 word"

text \<open>\<open>LLDB_INVALID_ADDRESS\<close> is \<open>UINT64_MAX\<close> (lldb-defines.h).\<close>

definition LLDB_INVALID_ADDRESS :: addr_t where
  "LLDB_INVALID_ADDRESS = - 1"

text \<open>The members of \<open>lldb::SymbolType\<close> that the symbol table tells apart.\<close>

datatype SymbolType =
    eSymbolTypeAny
  | eSymbolTypeInvalid
  | eSymbolTypeAbsolute
  | eSymbolTypeCode
  | eSymbolTypeResolver
  | eSymbolTypeData
  | eSymbolTypeTrampoline
  | eSymbolTypeReExported
  | eSymbolTypeOther

text \<open>
  What the symbol table reads and writes of a \<open>Symbol\<close> (the class itself, Symbol.h, is
  not among the sources): one field per accessor the code calls. \<open>FileAddress\<close> is
  \<open>GetAddressRef().GetFileAddress()\<close>, \<open>DemangledNameCxx\<close> is
  \<open>GetMangled().GetDemangledName(eLanguageTypeC_plus_plus)\<close> and \<open>DemangledName\<close> is
  \<open>GetMangled().GetDemangledName(GetLanguage())\<close>.
\<close>

record Symbol =
  GetID :: user_id_t
  GetType :: SymbolType
  ValueIsAddress :: bool
  FileAddress :: addr_t
  GetByteSize :: addr_t
  GetByteSizeIsValid :: bool
  GetSizeIsSynthesized :: bool
  ContainsLinkerAnnotations :: bool
  MangledName :: string
  DemangledNameCxx :: string
  DemangledName :: string

text \<open>
  Modelled from the spec: the setters of \<open>Symbol\<close> (Symbol.h is not among the sources).
  A size that has been set is a size the symbol has, so \<open>SetByteSize\<close> also marks it
  valid; \<open>IsTrampoline\<close> reads the symbol type.
\<close>

definition SetByteSize :: "addr_t \<Rightarrow> Symbol \<Rightarrow> Symbol" where
  "SetByteSize sz s = s\<lparr>GetByteSize := sz, GetByteSizeIsValid := True\<rparr>"

definition SetSizeIsSynthesized :: "bool \<Rightarrow> Symbol \<Rightarrow> Symbol" where
  "SetSizeIsSynthesized b s = s\<lparr>GetSizeIsSynthesized := b\<rparr>"

definition IsTrampoline :: "Symbol \<Rightarrow> bool" where
  "IsTrampoline s = (GetType s = eSymbolTypeTrampoline)"

text \<open>
  Failures that the C++ leaves to undefined behaviour or to \<open>assert\<close>: reading a vector
  or dereferencing a pointer where there is nothing, and a failed assertion.
\<close>

datatype fault = OutOfRange | NullDereference | AssertionFailed

text \<open>One call after another: the second is made on what the first returned.\<close>

definition and_then :: "fault + 'a \<Rightarrow> ('a \<Rightarrow> fault + 'b) \<Rightarrow> fault + 'b" where
  "and_then r f = (case r of Inl e \<Rightarrow> Inl e | Inr x \<Rightarrow> f x)"

section \<open>Sorting index lists by value\<close>

text \<open>
  \<open>SymbolIndexComparator::operator()\<close> with its address cache. The cache starts as
  \<open>LLDB_INVALID_ADDRESS\<close> everywhere and a slot is filled with the file address of its
  symbol on first use.
\<close>

definition cached_address :: "Symbol list \<Rightarrow> addr_t list \<Rightarrow> nat \<Rightarrow> addr_t \<times> addr_t list" where
  "cached_address symbols addr_cache index_a =
     (let value_a = addr_cache ! index_a in
      if value_a = LLDB_INVALID_ADDRESS
      then (let value_a = FileAddress (symbols ! index_a)
            in (value_a, addr_cache[index_a := value_a]))
      else (value_a, addr_cache))"

definition compare_values :: "Symbol list \<Rightarrow> addr_t \<Rightarrow> addr_t \<Rightarrow> nat \<Rightarrow> nat \<Rightarrow> bool" where
  "compare_values symbols value_a value_b index_a index_b =
     (if value_a = value_b then
        (let uid_a = GetID (symbols ! index_a); uid_b = GetID (symbols ! index_b)
         in if uid_a < uid_b then True else if uid_a > uid_b then False else False)
      else if value_a < value_b then True
      else False)"

definition SymbolIndexComparator_cached ::
  "Symbol list \<Rightarrow> addr_t list \<Rightarrow> nat \<Rightarrow> nat \<Rightarrow> bool \<times> addr_t list" where
  "SymbolIndexComparator_cached symbols addr_cache index_a index_b =
     (let (value_a, addr_cache) = cached_address symbols addr_cache index_a;
          (value_b, addr_cache) = cached_address symbols addr_cache index_b
      in (compare_values symbols value_a value_b index_a index_b, addr_cache))"

text \<open>
  The comparison the cached comparator computes whenever every filled slot of the cache
  holds the file address of its symbol (lemma \<open>SymbolIndexComparator_cached_eq\<close>).
\<close>

definition SymbolIndexComparator :: "Symbol list \<Rightarrow> nat \<Rightarrow> nat \<Rightarrow> bool" where
  "SymbolIndexComparator symbols index_a index_b =
     compare_values symbols (FileAddress (symbols ! index_a)) (FileAddress (symbols ! index_b))
       index_a index_b"

text \<open>
  \<open>std::stable_sort\<close> with a comparator: the sorted arrangement in which elements that
  the comparator does not order keep their input order. Insertion from the right
  computes it.
\<close>

fun stable_insert :: "('a \<Rightarrow> 'a \<Rightarrow> bool) \<Rightarrow> 'a \<Rightarrow> 'a list \<Rightarrow> 'a list" where
  "stable_insert lt x [] = [x]"
| "stable_insert lt x (y # ys) =
     (if lt y x then y # stable_insert lt x ys else x # y # ys)"

definition std_stable_sort :: "('a \<Rightarrow> 'a \<Rightarrow> bool) \<Rightarrow> 'a list \<Rightarrow> 'a list" where
  "std_stable_sort lt xs = foldr (stable_insert lt) xs []"

text \<open>
  \<open>std::unique\<close> as libstdc++ and libc++ implement it on a range of integers: it
  compacts the range in place and returns the new logical end. It cannot shrink the
  container: the elements from the returned position on keep the values they had.
  \<open>unique_loop xs result first\<close> is the loop \<open>while (++first != last)\<close> entered with
  \<open>first\<close> already advanced.
\<close>

function unique_loop :: "nat list \<Rightarrow> nat \<Rightarrow> nat \<Rightarrow> nat list \<times> nat" where
  "unique_loop xs result first =
     (if first < length xs then
        (if xs ! result \<noteq> xs ! first then
           unique_loop (if Suc result \<noteq> first then xs[Suc result := xs ! first] else xs)
             (Suc result) (Suc first)
         else unique_loop xs result (Suc first))
      else (xs, Suc result))"
  by pat_completeness auto
termination
  by (relation "measure (\<lambda>(xs, result, first). length xs - first)") auto

definition std_unique :: "nat list \<Rightarrow> nat list \<times> nat" where
  "std_unique xs = (if xs = [] then (xs, 0) else unique_loop xs 0 1)"

text \<open>
  \<open>Symtab::SortSymbolIndexesByValue\<close>, on the symbol vector. The comparator subscripts
  the vector and the cache with the values of the list, so a value that is no position
  of the vector is an out-of-range access. The iterator \<open>std::unique\<close> returns is
  dropped: the vector keeps its length.
\<close>

definition SortSymbolIndexesByValue :: "Symbol list \<Rightarrow> nat list \<Rightarrow> bool \<Rightarrow> fault + nat list" where
  "SortSymbolIndexesByValue m_symbols indexes remove_duplicates =
     (if length indexes \<le> 1 then Inr indexes
      else if \<not> list_all (\<lambda>i. i < length m_symbols) indexes then Inl OutOfRange
      else
        (let indexes = std_stable_sort (SymbolIndexComparator m_symbols) indexes
         in if remove_duplicates then Inr (fst (std_unique indexes)) else Inr indexes))"

text \<open>
  The three symbols of the specification's scenario: \<open>A::foo()\<close> at 0x1000 and
  \<open>A::bar()\<close> at 0x1010, both code without a size, and the data symbol \<open>g_var\<close> at
  0x2000 of size 0x100.
\<close>

definition scenario_foo :: Symbol where
  "scenario_foo = \<lparr>GetID = 1, GetType = eSymbolTypeCode, ValueIsAddress = True,
     FileAddress = 0x1000, GetByteSize = 0, GetByteSizeIsValid = False,
     GetSizeIsSynthesized = False, ContainsLinkerAnnotations = False,
     MangledName = ''_ZN1A3fooEv'', DemangledNameCxx = ''A::foo()'',
     DemangledName = ''A::foo()''\<rparr>"

definition scenario_bar :: Symbol where
  "scenario_bar = \<lparr>GetID = 2, GetType = eSymbolTypeCode, ValueIsAddress = True,
     FileAddress = 0x1010, GetByteSize = 0, GetByteSizeIsValid = False,
     GetSizeIsSynthesized = False, ContainsLinkerAnnotations = False,
     MangledName = ''_ZN1A3barEv'', DemangledNameCxx = ''A::bar()'',
     DemangledName = ''A::bar()''\<rparr>"

definition scenario_g_var :: Symbol where
  "scenario_g_var = \<lparr>GetID = 3, GetType = eSymbolTypeData, ValueIsAddress = True,
     FileAddress = 0x2000, GetByteSize = 0x100, GetByteSizeIsValid = True,
     GetSizeIsSynthesized = False, ContainsLinkerAnnotations = False,
     MangledName = ''g_var'', DemangledNameCxx = '''', DemangledName = ''''\<rparr>"

definition scenario_symbols :: "Symbol list" where
  "scenario_symbols = [scenario_foo, scenario_bar, scenario_g_var]"

text \<open>The key under which \<open>SymbolIndexComparator\<close> orders a position (used in proofs).\<close>

definition index_sort_key :: "Symbol list \<Rightarrow> nat \<Rightarrow> addr_t \<times> user_id_t" where
  "index_sort_key symbols i = (FileAddress (symbols ! i), GetID (symbols ! i))"

section \<open>The symbol table and its collaborators\<close>

text \<open>
  A section with its file address, byte size and children (\<open>Section\<close>, \<open>SectionList\<close>),
  and the entries of the range containers: \<open>RangeVector<addr_t, addr_t>::Entry\<close> and
  \<open>FileRangeToIndexMap::Entry\<close>, which adds the position of a symbol as payload.
\<close>

datatype Section =
  Section (SectionFileAddress: addr_t) (SectionByteSize: addr_t) (GetChildren: "Section list")

record Range =
  GetRangeBase :: addr_t
  GetRangeSize :: addr_t

record RangeData = Range +
  data :: nat

text \<open>An entry of a \<open>UniqueCStringMap<uint32_t>\<close>: the name and the position.\<close>

type_synonym name_entry = "string \<times> nat"

text \<open>
  The object file behind the table: its section list (a pointer that may be null) and
  \<open>StripLinkerSymbolAnnotations\<close>. The language plug-ins are pure functions the indexing
  calls: \<open>CPlusPlusLanguage::MethodName\<close> splits a demangled C++ name into basename,
  context and qualifiers, \<open>ObjCLanguage::MethodName\<close> recognises an Objective-C method
  name and gives its selector and its full name without the category.
\<close>

record ObjectFile =
  GetSectionList :: "Section list option"
  StripLinkerSymbolAnnotations :: "string \<Rightarrow> string"

record MethodName =
  GetBasename :: string
  GetContext :: string
  GetQualifiers :: string

record ObjCMethodName =
  IsValid :: bool
  GetSelector :: string
  GetFullNameWithoutCategory :: string

record Languages =
  CPlusPlus_MethodName :: "string \<Rightarrow> MethodName"
  ObjC_MethodName :: "string \<Rightarrow> ObjCMethodName"

record Symtab =
  m_objfile :: ObjectFile
  m_symbols :: "Symbol list"
  m_file_addr_to_index :: "RangeData list"
  m_name_to_index :: "name_entry list"
  m_basename_to_index :: "name_entry list"
  m_method_to_index :: "name_entry list"
  m_selector_to_index :: "name_entry list"
  m_file_addr_to_index_computed :: bool
  m_name_indexes_computed :: bool

text \<open>The constructor \<open>Symtab::Symtab\<close>, and \<open>AddSymbol\<close>, which returns the position.\<close>

definition Symtab_new :: "ObjectFile \<Rightarrow> Symtab" where
  "Symtab_new objfile =
     \<lparr>m_objfile = objfile, m_symbols = [], m_file_addr_to_index = [], m_name_to_index = [],
      m_basename_to_index = [], m_method_to_index = [], m_selector_to_index = [],
      m_file_addr_to_index_computed = False, m_name_indexes_computed = False\<rparr>"

definition AddSymbol :: "Symbol \<Rightarrow> Symtab \<Rightarrow> nat \<times> Symtab" where
  "AddSymbol symbol st =
     (let symbol_idx = length (m_symbols st)
      in (symbol_idx,
          st\<lparr>m_name_to_index := [], m_file_addr_to_index := [],
             m_symbols := m_symbols st @ [symbol],
             m_file_addr_to_index_computed := False, m_name_indexes_computed := False\<rparr>))"

text \<open>
  \<open>SectionFileAddressesChanged\<close>: it clears the name index and resets the flag of the
  address index; the address index itself and the flag of the name indexes are left as
  they are.
\<close>

definition SectionFileAddressesChanged :: "Symtab \<Rightarrow> Symtab" where
  "SectionFileAddressesChanged st =
     st\<lparr>m_name_to_index := [], m_file_addr_to_index_computed := False\<rparr>"

definition SymbolAtIndex :: "Symtab \<Rightarrow> nat \<Rightarrow> Symbol option" where
  "SymbolAtIndex st idx = (if idx < length (m_symbols st) then Some (m_symbols st ! idx) else None)"

section \<open>Name indexes\<close>

text \<open>
  Modelled from the spec: \<open>UniqueCStringMap\<close> (UniqueCStringMap.h is not among the
  sources), the spec's NameIndex: a sorted multimap from interned string to symbol
  index with multi-value lookup by exact name. \<open>Sort\<close> orders the entries by name and
  keeps entries of one name in their order; \<open>GetValues\<close> and the
  \<open>FindFirstValueForName\<close>/\<open>FindNextValueForName\<close> iteration give the values stored under
  a name, in the order of the entries.
\<close>

definition UniqueCStringMap_Sort :: "name_entry list \<Rightarrow> name_entry list" where
  "UniqueCStringMap_Sort m = sort_key fst m"

definition GetValues :: "string \<Rightarrow> name_entry list \<Rightarrow> nat list" where
  "GetValues name m = map snd (filter (\<lambda>e. fst e = name) m)"

text \<open>The character of a C string at an offset: the terminating NUL at its end.\<close>

definition char_at :: "string \<Rightarrow> nat \<Rightarrow> char" where
  "char_at s i = (if i < length s then s ! i else CHR 0x00)"

text \<open>
  The locals of \<open>Symtab::InitNameIndexes\<close> next to the four indexes it appends to:
  \<open>class_contexts\<close>, the deferred entries \<open>mangled_name_to_index\<close> and the context
  remembered for each deferred position (\<open>symbol_contexts\<close>, null to begin with).
\<close>

record NameIndexes =
  name_to_index :: "name_entry list"
  basename_to_index :: "name_entry list"
  method_to_index :: "name_entry list"
  selector_to_index :: "name_entry list"
  class_contexts :: "string set"
  mangled_name_to_index :: "name_entry list"
  symbol_contexts :: "string list"

text \<open>
  The body of the loop for one symbol, in two parts: what is done with the mangled name
  (the first \<open>if (entry.cstring && entry.cstring[0])\<close>), then the whole iteration.
\<close>

definition index_mangled_name ::
  "Languages \<Rightarrow> ObjectFile \<Rightarrow> nat \<Rightarrow> Symbol \<Rightarrow> string \<Rightarrow> NameIndexes \<Rightarrow> NameIndexes" where
  "index_mangled_name langs objfile entry_value symbol cstring0 b0 =
     (let b = b0\<lparr>name_to_index := name_to_index b0 @ [(cstring0, entry_value)]\<rparr>;
          cstring = (if ContainsLinkerAnnotations symbol
                     then StripLinkerSymbolAnnotations objfile cstring0 else cstring0);
          b = (if ContainsLinkerAnnotations symbol
               then b\<lparr>name_to_index := name_to_index b @ [(cstring, entry_value)]\<rparr> else b);
          symbol_type = GetType symbol
      in if symbol_type = eSymbolTypeCode \<or> symbol_type = eSymbolTypeResolver then
           (if char_at cstring 0 = CHR ''_'' \<and> char_at cstring 1 = CHR ''Z'' \<and>
               (char_at cstring 2 \<noteq> CHR ''T'' \<and> char_at cstring 2 \<noteq> CHR ''G'' \<and>
                char_at cstring 2 \<noteq> CHR ''Z'')
            then
              (let cxx_method = CPlusPlus_MethodName langs (DemangledNameCxx symbol);
                   cstring = GetBasename cxx_method
               in if cstring \<noteq> [] then
                    (let const_context = GetContext cxx_method
                     in if char_at cstring 0 = CHR ''~'' \<or> GetQualifiers cxx_method \<noteq> [] then
                          b\<lparr>class_contexts := insert const_context (class_contexts b),
                            method_to_index := method_to_index b @ [(cstring, entry_value)]\<rparr>
                        else if const_context \<noteq> [] then
                          (if const_context \<in> class_contexts b then
                             b\<lparr>method_to_index := method_to_index b @ [(cstring, entry_value)]\<rparr>
                           else
                             b\<lparr>mangled_name_to_index :=
                                  mangled_name_to_index b @ [(cstring, entry_value)],
                               symbol_contexts :=
                                  (symbol_contexts b)[entry_value := const_context]\<rparr>)
                        else
                          b\<lparr>basename_to_index := basename_to_index b @ [(cstring, entry_value)]\<rparr>)
                  else b)
            else b)
         else b)"

definition index_symbol ::
  "Languages \<Rightarrow> ObjectFile \<Rightarrow> nat \<times> Symbol \<Rightarrow> NameIndexes \<Rightarrow> NameIndexes" where
  "index_symbol langs objfile = (\<lambda>(entry_value, symbol) b0.
     if IsTrampoline symbol then b0
     else
       (let b = (if MangledName symbol \<noteq> []
                 then index_mangled_name langs objfile entry_value symbol (MangledName symbol) b0
                 else b0);
            cstring0 = DemangledName symbol;
            b = (if cstring0 \<noteq> []
                 then b\<lparr>name_to_index := name_to_index b @ [(cstring0, entry_value)]\<rparr> else b);
            cstring = (if cstring0 \<noteq> [] \<and> ContainsLinkerAnnotations symbol
                       then StripLinkerSymbolAnnotations objfile cstring0 else cstring0);
            b = (if cstring0 \<noteq> [] \<and> ContainsLinkerAnnotations symbol
                 then b\<lparr>name_to_index := name_to_index b @ [(cstring, entry_value)]\<rparr> else b);
            objc_method = ObjC_MethodName langs cstring
        in if IsValid objc_method then
             (let b = b\<lparr>selector_to_index :=
                          selector_to_index b @ [(GetSelector objc_method, entry_value)]\<rparr>;
                  objc_method_no_category = GetFullNameWithoutCategory objc_method
              in if objc_method_no_category \<noteq> []
                 then b\<lparr>name_to_index := name_to_index b @ [(objc_method_no_category, entry_value)]\<rparr>
                 else b)
           else b))"

text \<open>
  The second loop, over the deferred entries: into the method index alone when the
  remembered context is by now a class context, into the method and the basename index
  otherwise.
\<close>

definition resolve_deferred :: "name_entry \<Rightarrow> NameIndexes \<Rightarrow> NameIndexes" where
  "resolve_deferred = (\<lambda>(cstring, entry_value) b.
     if symbol_contexts b ! entry_value \<noteq> [] \<and>
        symbol_contexts b ! entry_value \<in> class_contexts b
     then b\<lparr>method_to_index := method_to_index b @ [(cstring, entry_value)]\<rparr>
     else b\<lparr>method_to_index := method_to_index b @ [(cstring, entry_value)],
            basename_to_index := basename_to_index b @ [(cstring, entry_value)]\<rparr>)"

text \<open>The state of the locals after the first loop, and after both loops.\<close>

definition first_pass :: "Languages \<Rightarrow> Symtab \<Rightarrow> NameIndexes" where
  "first_pass langs st =
     fold (index_symbol langs (m_objfile st)) (enumerate 0 (m_symbols st))
       \<lparr>name_to_index = m_name_to_index st, basename_to_index = m_basename_to_index st,
        method_to_index = m_method_to_index st, selector_to_index = m_selector_to_index st,
        class_contexts = {}, mangled_name_to_index = [],
        symbol_contexts = replicate (length (m_symbols st)) []\<rparr>"

definition second_pass :: "NameIndexes \<Rightarrow> NameIndexes" where
  "second_pass b =
     (if mangled_name_to_index b \<noteq> [] then fold resolve_deferred (mangled_name_to_index b) b
      else b)"

definition InitNameIndexes :: "Languages \<Rightarrow> Symtab \<Rightarrow> Symtab" where
  "InitNameIndexes langs st =
     (if \<not> m_name_indexes_computed st then
        (let b = second_pass (first_pass langs st)
         in st\<lparr>m_name_indexes_computed := True,
               m_name_to_index := UniqueCStringMap_Sort (name_to_index b),
               m_selector_to_index := UniqueCStringMap_Sort (selector_to_index b),
               m_basename_to_index := UniqueCStringMap_Sort (basename_to_index b),
               m_method_to_index := UniqueCStringMap_Sort (method_to_index b)\<rparr>)
      else st)"

section \<open>Lookups by name\<close>

definition AppendSymbolIndexesWithName ::
  "Languages \<Rightarrow> string \<Rightarrow> nat list \<Rightarrow> Symtab \<Rightarrow> nat \<times> nat list \<times> Symtab" where
  "AppendSymbolIndexesWithName langs symbol_name indexes st0 =
     (if symbol_name \<noteq> [] then
        (let st = (if \<not> m_name_indexes_computed st0 then InitNameIndexes langs st0 else st0);
             found = GetValues symbol_name (m_name_to_index st)
         in (length found, indexes @ found, st))
      else (0, indexes, st0))"

text \<open>
  The loop of \<open>AppendSymbolIndexesWithNameAndType\<close> that erases the positions of another
  type. It subscripts the symbol vector unless the type asked for is
  \<open>eSymbolTypeAny\<close>.
\<close>

definition erase_other_types :: "Symbol list \<Rightarrow> SymbolType \<Rightarrow> nat list \<Rightarrow> fault + nat list" where
  "erase_other_types symbols symbol_type indexes =
     (if symbol_type = eSymbolTypeAny then Inr indexes
      else if list_all (\<lambda>pos. pos < length symbols) indexes
      then Inr (filter (\<lambda>pos. GetType (symbols ! pos) = symbol_type) indexes)
      else Inl OutOfRange)"

definition AppendSymbolIndexesWithNameAndType ::
  "Languages \<Rightarrow> string \<Rightarrow> SymbolType \<Rightarrow> nat list \<Rightarrow> Symtab \<Rightarrow> fault + (nat \<times> nat list \<times> Symtab)" where
  "AppendSymbolIndexesWithNameAndType langs symbol_name symbol_type indexes0 st0 =
     (case AppendSymbolIndexesWithName langs symbol_name indexes0 st0 of
        (n, indexes, st) \<Rightarrow>
          if n > 0 then
            (case erase_other_types (m_symbols st) symbol_type indexes of
               Inl f \<Rightarrow> Inl f
             | Inr kept \<Rightarrow> Inr (length kept, kept, st))
          else Inr (length indexes, indexes, st))"

definition FindAllSymbolsWithNameAndType ::
  "Languages \<Rightarrow> string \<Rightarrow> SymbolType \<Rightarrow> nat list \<Rightarrow> Symtab \<Rightarrow> fault + (nat \<times> nat list \<times> Symtab)" where
  "FindAllSymbolsWithNameAndType langs name symbol_type symbol_indexes st0 =
     (let st = (if \<not> m_name_indexes_computed st0 then InitNameIndexes langs st0 else st0)
      in if name \<noteq> [] then
           (case AppendSymbolIndexesWithNameAndType langs name symbol_type symbol_indexes st of
              Inl f \<Rightarrow> Inl f
            | Inr (n, indexes, st') \<Rightarrow> Inr (length indexes, indexes, st'))
         else Inr (length symbol_indexes, symbol_indexes, st))"

text \<open>
  The bits of a function-name-type mask (\<open>lldb::FunctionNameType\<close>): a mask is the set of
  the bits that are set, and \<open>mask & bit\<close> is membership.
\<close>

datatype FunctionNameType =
    eFunctionNameTypeAuto
  | eFunctionNameTypeFull
  | eFunctionNameTypeBase
  | eFunctionNameTypeMethod
  | eFunctionNameTypeSelector

text \<open>
  The pieces of \<open>Symtab::FindFunctionSymbols\<close>: the test of the \<open>switch\<close> on the symbol
  type behind \<open>SymbolAtIndex\<close>; the loop over \<open>FindFirstValueForName\<close> and
  \<open>FindNextValueForName\<close> of one table, guarded by \<open>IsEmpty\<close>; and the final
  \<open>std::sort\<close> followed by \<open>erase(std::unique(...), end())\<close>.
\<close>

definition is_function_symbol :: "Symtab \<Rightarrow> nat \<Rightarrow> bool" where
  "is_function_symbol st idx =
     (case SymbolAtIndex st idx of
        None \<Rightarrow> False
      | Some symbol \<Rightarrow>
          GetType symbol = eSymbolTypeCode \<or> GetType symbol = eSymbolTypeResolver \<or>
          GetType symbol = eSymbolTypeReExported)"

definition values_for_name :: "string \<Rightarrow> name_entry list \<Rightarrow> nat list" where
  "values_for_name name_cstr m = (if m \<noteq> [] then GetValues name_cstr m else [])"

definition sort_erase_unique :: "nat list \<Rightarrow> nat list" where
  "sort_erase_unique symbol_indexes =
     (let sorted_indexes = sort symbol_indexes;
          (compacted, new_end) = std_unique sorted_indexes
      in take new_end compacted)"

text \<open>
  Modelled from the spec: \<open>SymbolContextList::AppendIfUnique\<close> (SymbolContextList is not
  among the sources). The spec says the deduplicated positions are materialised as a
  context list; a context made by \<open>SymbolIndicesToSymbolContextList\<close> names one symbol
  of this table and is represented by the position of that symbol.
\<close>

definition AppendIfUnique :: "nat \<Rightarrow> nat list \<Rightarrow> nat list" where
  "AppendIfUnique sc sc_list = (if sc \<in> set sc_list then sc_list else sc_list @ [sc])"

definition SymbolIndicesToSymbolContextList :: "Symtab \<Rightarrow> nat list \<Rightarrow> nat list \<Rightarrow> nat list" where
  "SymbolIndicesToSymbolContextList st symbol_indexes sc_list =
     fold (\<lambda>idx acc. case SymbolAtIndex st idx of None \<Rightarrow> acc | Some symbol \<Rightarrow> AppendIfUnique idx acc)
       symbol_indexes sc_list"

text \<open>
  The positions \<open>FindFunctionSymbols\<close> has collected when it reaches the sort, with the
  table as the lookups left it.
\<close>

definition collect_function_indexes ::
  "Languages \<Rightarrow> string \<Rightarrow> FunctionNameType set \<Rightarrow> Symtab \<Rightarrow> fault + (nat list \<times> Symtab)" where
  "collect_function_indexes langs name name_type_mask st0 =
     (case (if eFunctionNameTypeBase \<in> name_type_mask \<or> eFunctionNameTypeFull \<in> name_type_mask
            then (case FindAllSymbolsWithNameAndType langs name eSymbolTypeAny [] st0 of
                    Inl f \<Rightarrow> Inl f
                  | Inr (n, temp_symbol_indexes, st) \<Rightarrow>
                      Inr (filter (is_function_symbol st) temp_symbol_indexes, st))
            else Inr ([], st0)) of
        Inl f \<Rightarrow> Inl f
      | Inr (indexes1, st1) \<Rightarrow>
          (let st2 = (if eFunctionNameTypeBase \<in> name_type_mask \<and> \<not> m_name_indexes_computed st1
                      then InitNameIndexes langs st1 else st1);
               indexes2 = (if eFunctionNameTypeBase \<in> name_type_mask
                           then indexes1 @ values_for_name name (m_basename_to_index st2)
                           else indexes1);
               st3 = (if eFunctionNameTypeMethod \<in> name_type_mask \<and> \<not> m_name_indexes_computed st2
                      then InitNameIndexes langs st2 else st2);
               indexes3 = (if eFunctionNameTypeMethod \<in> name_type_mask
                           then indexes2 @ values_for_name name (m_method_to_index st3)
                           else indexes2);
               st4 = (if eFunctionNameTypeSelector \<in> name_type_mask \<and> \<not> m_name_indexes_computed st3
                      then InitNameIndexes langs st3 else st3);
               indexes4 = (if eFunctionNameTypeSelector \<in> name_type_mask
                           then indexes3 @ values_for_name name (m_selector_to_index st4)
                           else indexes3)
           in Inr (indexes4, st4)))"

text \<open>
  \<open>Symtab::FindFunctionSymbols\<close>: the count it returns, the context list it leaves and
  the table. The assertion on \<open>eFunctionNameTypeAuto\<close> comes first.
\<close>

definition FindFunctionSymbols ::
  "Languages \<Rightarrow> string \<Rightarrow> FunctionNameType set \<Rightarrow> nat list \<Rightarrow> Symtab
     \<Rightarrow> fault + (nat \<times> nat list \<times> Symtab)" where
  "FindFunctionSymbols langs name name_type_mask sc_list st0 =
     (if eFunctionNameTypeAuto \<in> name_type_mask then Inl AssertionFailed
      else
        (case collect_function_indexes langs name name_type_mask st0 of
           Inl f \<Rightarrow> Inl f
         | Inr (symbol_indexes, st) \<Rightarrow>
             if symbol_indexes \<noteq> [] then
               (let unique_indexes = sort_erase_unique symbol_indexes
                in Inr (length unique_indexes,
                        SymbolIndicesToSymbolContextList st unique_indexes sc_list, st))
             else Inr (0, sc_list, st)))"

text \<open>
  The specification's account of \<open>FindFunctionSymbols\<close>, to compare the function with:
  the union of the lookups the mask selects. The exact-name lookup runs for the full
  and for the base bit, finds nothing for the empty name, and keeps code, resolver and
  re-exported symbols; the other three are the values stored under the name in the
  basename, method and selector tables. \<open>lookups_selected\<close> says that the mask selects
  at least one lookup, which is when the name indexes get built.
\<close>

definition function_symbol_matches :: "string \<Rightarrow> FunctionNameType set \<Rightarrow> Symtab \<Rightarrow> nat set" where
  "function_symbol_matches name name_type_mask st =
     (if eFunctionNameTypeBase \<in> name_type_mask \<or> eFunctionNameTypeFull \<in> name_type_mask
      then {i \<in> set (GetValues name (m_name_to_index st)). name \<noteq> [] \<and> is_function_symbol st i}
      else {}) \<union>
     (if eFunctionNameTypeBase \<in> name_type_mask
      then set (GetValues name (m_basename_to_index st)) else {}) \<union>
     (if eFunctionNameTypeMethod \<in> name_type_mask
      then set (GetValues name (m_method_to_index st)) else {}) \<union>
     (if eFunctionNameTypeSelector \<in> name_type_mask
      then set (GetValues name (m_selector_to_index st)) else {})"

definition lookups_selected :: "FunctionNameType set \<Rightarrow> bool" where
  "lookups_selected name_type_mask =
     (eFunctionNameTypeFull \<in> name_type_mask \<or> eFunctionNameTypeBase \<in> name_type_mask \<or>
      eFunctionNameTypeMethod \<in> name_type_mask \<or> eFunctionNameTypeSelector \<in> name_type_mask)"

text \<open>
  The table of the specification's scenario: the three symbols, one section
  \<open>[0x1000, 0x1020)\<close>, no linker annotations, and a C++ name parser that knows the two
  method names and the destructor of \<open>A\<close>. A second table has the destructor
  \<open>A::~A()\<close> as a fourth symbol, which makes \<open>A\<close> a known class context.
\<close>

definition scenario_objfile :: ObjectFile where
  "scenario_objfile =
     \<lparr>GetSectionList = Some [Section 0x1000 0x20 []],
      StripLinkerSymbolAnnotations = (\<lambda>name. name)\<rparr>"

definition scenario_languages :: Languages where
  "scenario_languages =
     \<lparr>CPlusPlus_MethodName = (\<lambda>demangled.
        if demangled = ''A::foo()''
        then \<lparr>GetBasename = ''foo'', GetContext = ''A'', GetQualifiers = ''''\<rparr>
        else if demangled = ''A::bar()''
        then \<lparr>GetBasename = ''bar'', GetContext = ''A'', GetQualifiers = ''''\<rparr>
        else if demangled = ''A::~A()''
        then \<lparr>GetBasename = ''~A'', GetContext = ''A'', GetQualifiers = ''''\<rparr>
        else \<lparr>GetBasename = '''', GetContext = '''', GetQualifiers = ''''\<rparr>),
      ObjC_MethodName = (\<lambda>name.
        \<lparr>IsValid = False, GetSelector = '''', GetFullNameWithoutCategory = ''''\<rparr>)\<rparr>"

definition scenario_symtab :: Symtab where
  "scenario_symtab = (Symtab_new scenario_objfile)\<lparr>m_symbols := scenario_symbols\<rparr>"

definition scenario_dtor :: Symbol where
  "scenario_dtor = \<lparr>GetID = 4, GetType = eSymbolTypeCode, ValueIsAddress = True,
     FileAddress = 0x1018, GetByteSize = 0, GetByteSizeIsValid = False,
     GetSizeIsSynthesized = False, ContainsLinkerAnnotations = False,
     MangledName = ''_ZN1AD1Ev'', DemangledNameCxx = ''A::~A()'',
     DemangledName = ''A::~A()''\<rparr>"

definition scenario_symtab_dtor :: Symtab where
  "scenario_symtab_dtor =
     (Symtab_new scenario_objfile)\<lparr>m_symbols := scenario_symbols @ [scenario_dtor]\<rparr>"

text \<open>The demangled context of a symbol, as the first loop reads it (used in proofs).\<close>

definition ctx_of :: "Languages \<Rightarrow> Symbol \<Rightarrow> string" where
  "ctx_of langs symbol = GetContext (CPlusPlus_MethodName langs (DemangledNameCxx symbol))"

text \<open>
  The invariant of the first loop of \<open>InitNameIndexes\<close> after \<open>n\<close> symbols, against
  the locals \<open>b0\<close> it started with: a deferred entry belongs to an earlier position,
  whose non-empty context has been remembered; no position is deferred twice; and the
  method and basename indexes hold nothing new for a deferred position or a position
  still to come (used in proofs).
\<close>

definition pass_inv :: "Languages \<Rightarrow> Symbol list \<Rightarrow> NameIndexes \<Rightarrow> nat \<Rightarrow> NameIndexes \<Rightarrow> bool" where
  "pass_inv langs symbols b0 n b \<longleftrightarrow>
     length (symbol_contexts b) = length symbols \<and>
     (\<forall>e \<in> set (mangled_name_to_index b).
        snd e < n \<and> symbol_contexts b ! snd e = ctx_of langs (symbols ! snd e) \<and>
        ctx_of langs (symbols ! snd e) \<noteq> []) \<and>
     distinct (map snd (mangled_name_to_index b)) \<and>
     (\<forall>v. n \<le> v \<or> v \<in> snd ` set (mangled_name_to_index b) \<longrightarrow>
        filter (\<lambda>e. snd e = v) (method_to_index b) = filter (\<lambda>e. snd e = v) (method_to_index b0) \<and>
        filter (\<lambda>e. snd e = v) (basename_to_index b) = filter (\<lambda>e. snd e = v) (basename_to_index b0))"

section \<open>The address index\<close>

text \<open>
  Modelled from the spec: the range containers \<open>RangeVector\<close> and \<open>RangeDataVector\<close>
  (RangeMap.h is not among the sources), the spec's RangeIndex: entries sorted by base
  address that answer "starts at", "contains" and "all containing" queries. A range
  contains the addresses from its base up to, not including, its base plus its size.
  \<open>Sort\<close> orders by base address, then size, then payload, and is stable.
\<close>

definition Contains :: "'a Range_scheme \<Rightarrow> addr_t \<Rightarrow> bool" where
  "Contains r a = (GetRangeBase r \<le> a \<and> a < GetRangeBase r + GetRangeSize r)"

definition RangeVector_Sort :: "Range list \<Rightarrow> Range list" where
  "RangeVector_Sort rs = sort_key (\<lambda>r. (GetRangeBase r, GetRangeSize r)) rs"

definition RangeDataVector_Sort :: "RangeData list \<Rightarrow> RangeData list" where
  "RangeDataVector_Sort es = sort_key (\<lambda>e. (GetRangeBase e, GetRangeSize e, data e)) es"

definition FindEntryThatContains :: "'a Range_scheme list \<Rightarrow> addr_t \<Rightarrow> 'a Range_scheme option" where
  "FindEntryThatContains rs a = find (\<lambda>r. Contains r a) rs"

definition FindEntryStartsAt :: "RangeData list \<Rightarrow> addr_t \<Rightarrow> RangeData option" where
  "FindEntryStartsAt es a = find (\<lambda>e. GetRangeBase e = a) es"

definition FindEntryIndexesThatContain :: "RangeData list \<Rightarrow> addr_t \<Rightarrow> nat list" where
  "FindEntryIndexesThatContain es a = map data (filter (\<lambda>e. Contains e a) es)"

text \<open>
  Modelled from the spec: \<open>Symbol::GetFileAddress\<close> and \<open>Symbol::ContainsFileAddress\<close>
  (Symbol.cpp is not among the sources): the file address of a symbol whose value is an
  address, and whether an address lies in \<open>[base, base + size)\<close> of the symbol.
\<close>

definition Symbol_GetFileAddress :: "Symbol \<Rightarrow> addr_t" where
  "Symbol_GetFileAddress s = (if ValueIsAddress s then FileAddress s else LLDB_INVALID_ADDRESS)"

definition ContainsFileAddress :: "Symbol \<Rightarrow> addr_t \<Rightarrow> bool" where
  "ContainsFileAddress s a = (FileAddress s \<le> a \<and> a - FileAddress s < GetByteSize s)"

text \<open>\<open>AddSectionsToRangeMap\<close>: the leaf sections of a section tree, appended in order.\<close>

fun AddSectionsToRangeMap :: "Section list \<Rightarrow> Range list \<Rightarrow> Range list" where
  "AddSectionsToRangeMap [] section_ranges = section_ranges"
| "AddSectionsToRangeMap (Section base_addr byte_size child_sectlist # rest) section_ranges =
     AddSectionsToRangeMap rest
       (if child_sectlist \<noteq> [] then AddSectionsToRangeMap child_sectlist section_ranges
        else section_ranges @ [\<lparr>GetRangeBase = base_addr, GetRangeSize = byte_size\<rparr>])"

text \<open>
  The first loop of \<open>Symtab::InitAddressIndexes\<close>: an entry for every symbol whose value
  is an address, with the symbol's size and its position as payload.
\<close>

definition address_entries :: "Symbol list \<Rightarrow> RangeData list" where
  "address_entries symbols =
     map (\<lambda>(idx, s). \<lparr>GetRangeBase = FileAddress s, GetRangeSize = GetByteSize s, data = idx\<rparr>)
       (filter (\<lambda>(idx, s). ValueIsAddress s) (enumerate 0 symbols))"

text \<open>
  The size computed for the entry at position \<open>i\<close>, which has none: the distance to the
  end of the containing section if there is one, replaced by the distance to the first
  entry from \<open>i\<close> on with a greater base when that is smaller (or when there is no
  section bound).
\<close>

definition synthesized_size :: "Range list \<Rightarrow> RangeData list \<Rightarrow> nat \<Rightarrow> addr_t" where
  "synthesized_size section_ranges entries i =
     (let curr_base_addr = GetRangeBase (entries ! i);
          containing_section = FindEntryThatContains section_ranges curr_base_addr;
          sym_size = (case containing_section of
                        None \<Rightarrow> 0
                      | Some sec \<Rightarrow> GetRangeSize sec - (curr_base_addr - GetRangeBase sec))
      in case find (\<lambda>next_base_addr. next_base_addr > curr_base_addr)
                (drop i (map GetRangeBase entries)) of
           None \<Rightarrow> sym_size
         | Some next_base_addr \<Rightarrow>
             (let size_to_next_symbol = next_base_addr - curr_base_addr
              in if sym_size = 0 \<or> size_to_next_symbol < sym_size
                 then size_to_next_symbol else sym_size))"

text \<open>
  The loop \<open>for (size_t i = 0; i < num_entries; i++)\<close> that fills in the sizes, on the
  entries and the symbol vector. The payload subscripts the symbol vector.
\<close>

function fill_sizes ::
  "Range list \<Rightarrow> nat \<Rightarrow> RangeData list \<Rightarrow> Symbol list \<Rightarrow> fault + (RangeData list \<times> Symbol list)" where
  "fill_sizes section_ranges i entries symbols =
     (if i < length entries then
        (if GetRangeSize (entries ! i) = 0 then
           (let sym_size = synthesized_size section_ranges entries i
            in if sym_size > 0 then
                 (if data (entries ! i) < length symbols then
                    fill_sizes section_ranges (Suc i)
                      (entries[i := (entries ! i)\<lparr>GetRangeSize := sym_size\<rparr>])
                      (symbols[data (entries ! i) :=
                         SetSizeIsSynthesized True
                           (SetByteSize sym_size (symbols ! data (entries ! i)))])
                  else Inl OutOfRange)
               else fill_sizes section_ranges (Suc i) entries symbols)
         else fill_sizes section_ranges (Suc i) entries symbols)
      else Inr (entries, symbols))"
  by pat_completeness auto
termination
  by (relation "measure (\<lambda>(section_ranges, i, entries, symbols). length entries - i)") auto

definition section_ranges_of :: "ObjectFile \<Rightarrow> Range list" where
  "section_ranges_of objfile =
     (case GetSectionList objfile of
        None \<Rightarrow> []
      | Some sectlist \<Rightarrow> RangeVector_Sort (AddSectionsToRangeMap sectlist []))"

definition InitAddressIndexes :: "Symtab \<Rightarrow> fault + Symtab" where
  "InitAddressIndexes st =
     (if \<not> m_file_addr_to_index_computed st \<and> m_symbols st \<noteq> [] then
        (let entries = m_file_addr_to_index st @ address_entries (m_symbols st)
         in if entries \<noteq> [] then
              (case fill_sizes (section_ranges_of (m_objfile st)) 0
                      (RangeDataVector_Sort entries) (m_symbols st) of
                 Inl f \<Rightarrow> Inl f
               | Inr (filled, symbols) \<Rightarrow>
                   Inr (st\<lparr>m_file_addr_to_index_computed := True,
                          m_file_addr_to_index := RangeDataVector_Sort filled,
                          m_symbols := symbols\<rparr>))
            else Inr (st\<lparr>m_file_addr_to_index_computed := True\<rparr>))
      else Inr st)"

text \<open>The loop of \<open>Symtab::CalculateSymbolSizes\<close> over the entries, and the function.\<close>

fun calculate_sizes :: "RangeData list \<Rightarrow> Symbol list \<Rightarrow> fault + Symbol list" where
  "calculate_sizes [] symbols = Inr symbols"
| "calculate_sizes (entry # rest) symbols =
     (if data entry < length symbols then
        (let symbol = symbols ! data entry
         in if GetByteSizeIsValid symbol then calculate_sizes rest symbols
            else
              (let range_size = GetRangeSize entry
               in if range_size > 0
                  then calculate_sizes rest
                         (symbols[data entry :=
                            SetSizeIsSynthesized True (SetByteSize range_size symbol)])
                  else calculate_sizes rest symbols))
      else Inl OutOfRange)"

definition CalculateSymbolSizes :: "Symtab \<Rightarrow> fault + Symtab" where
  "CalculateSymbolSizes st0 =
     (if m_symbols st0 \<noteq> [] then
        (case (if \<not> m_file_addr_to_index_computed st0 then InitAddressIndexes st0 else Inr st0) of
           Inl f \<Rightarrow> Inl f
         | Inr st \<Rightarrow>
             (case calculate_sizes (m_file_addr_to_index st) (m_symbols st) of
                Inl f \<Rightarrow> Inl f
              | Inr symbols \<Rightarrow> Inr (st\<lparr>m_symbols := symbols\<rparr>)))
      else Inr st0)"

text \<open>
  The state of the address index the address functions rely on: once built, every
  payload is a position of the symbol vector; before that, the index is empty (as the
  constructor and \<open>AddSymbol\<close> leave it).
\<close>

definition addr_index_wf :: "Symtab \<Rightarrow> bool" where
  "addr_index_wf st =
     (if m_file_addr_to_index_computed st
      then list_all (\<lambda>e. data e < length (m_symbols st)) (m_file_addr_to_index st)
      else m_file_addr_to_index st = [])"

text \<open>
  A table whose address index is built before the object file has a section list: its
  one symbol, without a size, is at 0x2000, and nothing bounds it. Then the object file
  gets the sections \<open>[0x1000, 0x1020)\<close> and \<open>[0x2000, 0x3000)\<close>, the symbol resolves to
  0x1000 in the first of them, and the table is told with \<open>SectionFileAddressesChanged\<close>.
  \<open>stale_entry_symtab\<close> is the table at that moment, given the table \<open>st\<close> that the
  first \<open>InitAddressIndexes\<close> returned.
\<close>

definition unsectioned_objfile :: ObjectFile where
  "unsectioned_objfile =
     \<lparr>GetSectionList = None, StripLinkerSymbolAnnotations = (\<lambda>name. name)\<rparr>"

definition two_section_objfile :: ObjectFile where
  "two_section_objfile =
     \<lparr>GetSectionList = Some [Section 0x1000 0x20 [], Section 0x2000 0x1000 []],
      StripLinkerSymbolAnnotations = (\<lambda>name. name)\<rparr>"

definition unsectioned_symtab :: Symtab where
  "unsectioned_symtab =
     snd (AddSymbol (scenario_foo\<lparr>FileAddress := 0x2000\<rparr>) (Symtab_new unsectioned_objfile))"

definition stale_entry_symtab :: "Symtab \<Rightarrow> Symtab" where
  "stale_entry_symtab st =
     SectionFileAddressesChanged
       (st\<lparr>m_objfile := two_section_objfile,
           m_symbols := map (\<lambda>s. s\<lparr>FileAddress := 0x1000\<rparr>) (m_symbols st)\<rparr>)"


section \<open>Lookups by id and by address\<close>

text \<open>
  \<open>bsearch\<close> with \<open>CompareSymbolID\<close> over the symbol vector, between the bounds \<open>l\<close> and
  \<open>u\<close>; \<open>Symtab::FindSymbolByID\<close> gives the position of the symbol found, for the
  pointer to it. The base handed to \<open>bsearch\<close> is \<open>&m_symbols[0]\<close>: the vector is
  subscripted at 0 before the search, with no test that it has an element.
\<close>

function bsearch_id :: "user_id_t \<Rightarrow> Symbol list \<Rightarrow> nat \<Rightarrow> nat \<Rightarrow> nat option" where
  "bsearch_id match_uid symbols l u =
     (if l < u then
        (let idx = (l + u) div 2; symbol_uid = GetID (symbols ! idx)
         in if match_uid < symbol_uid then bsearch_id match_uid symbols l idx
            else if match_uid > symbol_uid then bsearch_id match_uid symbols (Suc idx) u
            else Some idx)
      else None)"
  by pat_completeness auto
termination
  by (relation "measure (\<lambda>(match_uid, symbols, l, u). u - l)") auto

definition FindSymbolByID :: "Symtab \<Rightarrow> user_id_t \<Rightarrow> fault + nat option" where
  "FindSymbolByID st symbol_uid =
     (if 0 < length (m_symbols st)
      then Inr (bsearch_id symbol_uid (m_symbols st) 0 (length (m_symbols st)))
      else Inl OutOfRange)"

text \<open>
  The address lookups build the address index first. The symbol behind an entry is
  fetched with \<open>SymbolAtIndex\<close> and used without a null check.
\<close>

definition FindSymbolAtFileAddress :: "Symtab \<Rightarrow> addr_t \<Rightarrow> fault + (nat option \<times> Symtab)" where
  "FindSymbolAtFileAddress st0 file_addr =
     (case (if \<not> m_file_addr_to_index_computed st0 then InitAddressIndexes st0 else Inr st0) of
        Inl f \<Rightarrow> Inl f
      | Inr st \<Rightarrow>
          (case FindEntryStartsAt (m_file_addr_to_index st) file_addr of
             None \<Rightarrow> Inr (None, st)
           | Some entry \<Rightarrow>
               (case SymbolAtIndex st (data entry) of
                  None \<Rightarrow> Inl NullDereference
                | Some symbol \<Rightarrow>
                    if Symbol_GetFileAddress symbol = file_addr then Inr (Some (data entry), st)
                    else Inr (None, st))))"

definition FindSymbolContainingFileAddress :: "Symtab \<Rightarrow> addr_t \<Rightarrow> fault + (nat option \<times> Symtab)" where
  "FindSymbolContainingFileAddress st0 file_addr =
     (case (if \<not> m_file_addr_to_index_computed st0 then InitAddressIndexes st0 else Inr st0) of
        Inl f \<Rightarrow> Inl f
      | Inr st \<Rightarrow>
          (case FindEntryThatContains (m_file_addr_to_index st) file_addr of
             None \<Rightarrow> Inr (None, st)
           | Some entry \<Rightarrow>
               (case SymbolAtIndex st (data entry) of
                  None \<Rightarrow> Inl NullDereference
                | Some symbol \<Rightarrow>
                    if ContainsFileAddress symbol file_addr then Inr (Some (data entry), st)
                    else Inr (None, st))))"

text \<open>
  \<open>ForEachSymbolContainingFileAddress\<close>: the positions handed to the callback, in order;
  the callback stops the visit by returning false.
\<close>

fun visit_containing :: "Symtab \<Rightarrow> addr_t \<Rightarrow> (nat \<Rightarrow> bool) \<Rightarrow> nat list \<Rightarrow> fault + nat list" where
  "visit_containing st file_addr callback [] = Inr []"
| "visit_containing st file_addr callback (idx # rest) =
     (case SymbolAtIndex st idx of
        None \<Rightarrow> Inl NullDereference
      | Some symbol \<Rightarrow>
          if ContainsFileAddress symbol file_addr then
            (if \<not> callback idx then Inr [idx]
             else (case visit_containing st file_addr callback rest of
                     Inl f \<Rightarrow> Inl f
                   | Inr visited \<Rightarrow> Inr (idx # visited)))
          else visit_containing st file_addr callback rest)"

definition ForEachSymbolContainingFileAddress ::
  "Symtab \<Rightarrow> addr_t \<Rightarrow> (nat \<Rightarrow> bool) \<Rightarrow> fault + (nat list \<times> Symtab)" where
  "ForEachSymbolContainingFileAddress st0 file_addr callback =
     (case (if \<not> m_file_addr_to_index_computed st0 then InitAddressIndexes st0 else Inr st0) of
        Inl f \<Rightarrow> Inl f
      | Inr st \<Rightarrow>
          (case visit_containing st file_addr callback
                  (FindEntryIndexesThatContain (m_file_addr_to_index st) file_addr) of
             Inl f \<Rightarrow> Inl f
           | Inr visited \<Rightarrow> Inr (visited, st)))"

text \<open>
  \<open>AppendSymbolIndexesWithType\<close> (the overload without debug and visibility filters): the
  list with the positions appended, and how many were.
\<close>

definition AppendSymbolIndexesWithType ::
  "Symtab \<Rightarrow> SymbolType \<Rightarrow> nat list \<Rightarrow> nat \<Rightarrow> nat \<Rightarrow> nat \<times> nat list" where
  "AppendSymbolIndexesWithType st symbol_type indexes start_idx end_index =
     (let prev_size = length indexes;
          count = min (length (m_symbols st)) end_index;
          appended = indexes @
            filter (\<lambda>i. symbol_type = eSymbolTypeAny \<or> GetType (m_symbols st ! i) = symbol_type)
              [start_idx ..< count]
      in (length appended - prev_size, appended))"

section \<open>The dynamic type of a C++ value\<close>

text \<open>
  \<open>ItaniumABILanguageRuntime::GetDynamicTypeAndAddress\<close> asks its collaborators (the
  value, the process, the target and its images, the type system) and decides from
  their answers. The answers are the fields of an environment: whether the static type
  could have a dynamic one; the pointer value; whether there is a process; what a read
  of one pointer-sized word gives (nothing on an error or a short read, else the word
  extracted and the offset after the extraction); whether the target has loaded
  sections; how a load address resolves; the demangled name of the symbol at a resolved
  address (nothing without a symbol; the empty string for a null name) and its module;
  the types found by name in a module (at most one asked for) and in the whole target,
  each with the number of matches reported; whether a type is a C++ class type and
  whether it is the static type of the value; the pointer size of the target; and the
  load address of a resolved address. Types are identified by their uid. Logging is
  off.
\<close>

type_synonym lldb_type = nat

record Address =
  addr_section :: "nat option"
  addr_offset :: addr_t

record TypeAndOrName =
  GetName :: string
  GetTypeSP :: "lldb_type option"

record DynamicTypeEnv =
  CouldHaveDynamicValue :: bool
  GetPointerValue :: addr_t
  GetProcessPtr :: bool
  ReadMemory :: "addr_t \<Rightarrow> (addr_t \<times> nat) option"
  HasLoadedSections :: bool
  ResolveLoadAddress :: "addr_t \<Rightarrow> Address option"
  SymbolDemangledName :: "Address \<Rightarrow> string option"
  SymbolModule :: "Address \<Rightarrow> nat option"
  Module_FindTypes :: "nat \<Rightarrow> string \<Rightarrow> nat \<times> lldb_type list"
  Target_FindTypes :: "string \<Rightarrow> nat \<times> lldb_type list"
  IsCXXClassType :: "lldb_type \<Rightarrow> bool"
  AreTypesSame :: "lldb_type \<Rightarrow> bool"
  GetAddressByteSize :: nat
  GetLoadAddress :: "Address \<Rightarrow> addr_t"

definition vtable_demangled_prefix :: string where
  "vtable_demangled_prefix = ''vtable for ''"

text \<open>
  Modelled from the spec: \<open>TypeList::GetTypeAtIndex\<close>, \<open>Address::Slide\<close> and
  \<open>Address::SetRawAddress\<close> (not among the sources): the type at a position or null
  past the end; an address moved by a signed offset; an address without a section.
\<close>

definition GetTypeAtIndex :: "lldb_type list \<Rightarrow> nat \<Rightarrow> lldb_type option" where
  "GetTypeAtIndex class_types i = (if i < length class_types then Some (class_types ! i) else None)"

definition Slide :: "int \<Rightarrow> Address \<Rightarrow> Address" where
  "Slide n a = a\<lparr>addr_offset := addr_offset a + word_of_int n\<rparr>"

definition RawAddress :: "addr_t \<Rightarrow> Address" where
  "RawAddress a = \<lparr>addr_section = None, addr_offset = a\<rparr>"

text \<open>
  The first part of the function, up to the class name read off the vtable symbol:
  the resolved address of the vtable's address point and the class name, or nothing
  when the function gives up before (it then returns false).
\<close>

definition vtable_class_name :: "DynamicTypeEnv \<Rightarrow> fault + (Address \<times> string) option" where
  "vtable_class_name env =
     (if \<not> CouldHaveDynamicValue env then Inr None
      else if GetPointerValue env = LLDB_INVALID_ADDRESS then Inr None
      else if \<not> GetProcessPtr env then Inl NullDereference
      else
        (case ReadMemory env (GetPointerValue env) of
           None \<Rightarrow> Inr None
         | Some (vtable_address_point, offset) \<Rightarrow>
             if offset = 0 then Inr None
             else if \<not> HasLoadedSections env then Inr None
             else
               (case ResolveLoadAddress env vtable_address_point of
                  None \<Rightarrow> Inr None
                | Some address_point_address \<Rightarrow>
                    (case SymbolDemangledName env address_point_address of
                       None \<Rightarrow> Inr None
                     | Some name \<Rightarrow>
                         if name \<noteq> [] \<and>
                            take (length vtable_demangled_prefix) name = vtable_demangled_prefix
                         then Inr (Some (address_point_address,
                                         drop (length vtable_demangled_prefix) name))
                         else Inr None))))"

text \<open>
  The two type lookups: in the module of the vtable symbol first, in the whole target
  when that reports no match. The result is \<open>num_matches\<close> and \<open>class_types\<close>.
\<close>

definition find_class_types :: "DynamicTypeEnv \<Rightarrow> Address \<Rightarrow> string \<Rightarrow> nat \<times> lldb_type list" where
  "find_class_types env address_point_address class_name =
     (let (num_matches, class_types) =
            (case SymbolModule env address_point_address of
               None \<Rightarrow> (0, [])
             | Some module \<Rightarrow> Module_FindTypes env module class_name)
      in if num_matches = 0
         then (let (target_matches, target_types) = Target_FindTypes env class_name
               in (target_matches, class_types @ target_types))
         else (num_matches, class_types))"

text \<open>
  The loop over several matches: the first type, among the first \<open>num_matches\<close>, that
  is a C++ class type. (\<open>GetTypeAtIndex\<close> is null past the end of the list, and a null
  type is passed over.)
\<close>

definition first_cxx_class_type :: "DynamicTypeEnv \<Rightarrow> nat \<Rightarrow> lldb_type list \<Rightarrow> lldb_type option" where
  "first_cxx_class_type env num_matches class_types =
     find (IsCXXClassType env) (take num_matches class_types)"

text \<open>
  The block \<open>if (type_sp)\<close>: a type that is the static type means no dynamic type;
  otherwise the offset to top is read two pointers above the address point and added
  to the pointer.
\<close>

definition dynamic_address_for ::
  "DynamicTypeEnv \<Rightarrow> Address \<Rightarrow> TypeAndOrName \<Rightarrow> lldb_type
     \<Rightarrow> fault + (bool \<times> TypeAndOrName \<times> Address option)" where
  "dynamic_address_for env address_point_address class_type_or_name type_sp =
     (if AreTypesSame env type_sp then Inr (False, class_type_or_name, None)
      else
        (let offset_to_top_address =
               Slide (- 2 * int (GetAddressByteSize env)) address_point_address;
             offset_to_top_location = GetLoadAddress env offset_to_top_address
         in case ReadMemory env offset_to_top_location of
              None \<Rightarrow> Inr (False, class_type_or_name, None)
            | Some (offset_to_top, offset) \<Rightarrow>
                (let dynamic_addr = GetPointerValue env + offset_to_top
                 in Inr (True, class_type_or_name,
                         Some (case ResolveLoadAddress env dynamic_addr of
                                 None \<Rightarrow> RawAddress dynamic_addr
                               | Some resolved \<Rightarrow> resolved)))))"

text \<open>
  The function: the value it returns, \<open>class_type_or_name\<close> and \<open>dynamic_address\<close> (if
  set). With one match reported and an empty list the type is null and the function
  falls through to its last line, which returns whether a name has been set.
\<close>

definition GetDynamicTypeAndAddress ::
  "DynamicTypeEnv \<Rightarrow> fault + (bool \<times> TypeAndOrName \<times> Address option)" where
  "GetDynamicTypeAndAddress env =
     (case vtable_class_name env of
        Inl f \<Rightarrow> Inl f
      | Inr None \<Rightarrow> Inr (False, \<lparr>GetName = [], GetTypeSP = None\<rparr>, None)
      | Inr (Some (address_point_address, class_name)) \<Rightarrow>
          (let named = \<lparr>GetName = class_name, GetTypeSP = None\<rparr>;
               (num_matches, class_types) = find_class_types env address_point_address class_name
           in if num_matches = 0 then Inr (False, named, None)
              else if num_matches = 1 then
                (case GetTypeAtIndex class_types 0 of
                   None \<Rightarrow> Inr (class_name \<noteq> [], named, None)
                 | Some type_sp \<Rightarrow>
                     dynamic_address_for env address_point_address
                       (named\<lparr>GetTypeSP := Some type_sp\<rparr>) type_sp)
              else
                (case first_cxx_class_type env num_matches class_types of
                   None \<Rightarrow> Inr (False, named, None)
                 | Some type_sp \<Rightarrow>
                     dynamic_address_for env address_point_address
                       (named\<lparr>GetTypeSP := Some type_sp\<rparr>) type_sp)))"

text \<open>
  An environment for a pointer to an object of class \<open>Derived\<close>: its vtable pointer,
  read at 0x5000, is 0x2010, the address point of \<open>vtable for Derived\<close> in module 0; the
  target knows the types 7 and 9 by that name, of which 9 is a C++ class type and
  neither is the static type; the offset to top, read at 0x2000, is 0.
\<close>

definition derived_env :: DynamicTypeEnv where
  "derived_env =
     \<lparr>CouldHaveDynamicValue = True, GetPointerValue = 0x5000, GetProcessPtr = True,
      ReadMemory = (\<lambda>a. if a = 0x5000 then Some (0x2010, 8)
                         else if a = 0x2000 then Some (0, 8) else None),
      HasLoadedSections = True,
      ResolveLoadAddress = (\<lambda>a. Some \<lparr>addr_section = Some 0, addr_offset = a\<rparr>),
      SymbolDemangledName = (\<lambda>a. if addr_offset a = 0x2010 then Some ''vtable for Derived''
                                  else None),
      SymbolModule = (\<lambda>a. Some 0),
      Module_FindTypes = (\<lambda>module name. (0, [])),
      Target_FindTypes = (\<lambda>name. if name = ''Derived'' then (2, [7, 9]) else (0, [])),
      IsCXXClassType = (\<lambda>t. t = 9),
      AreTypesSame = (\<lambda>t. False),
      GetAddressByteSize = 8,
      GetLoadAddress = addr_offset\<rparr>"

section \<open>The dispatch introspection handlers\<close>

text \<open>
  \<open>AppleGetQueuesHandler\<close> and \<open>AppleGetPendingItemsHandler\<close> call a function
  inside the inferior and read its three results from a return buffer. The thread, the
  process, the target and the expression machinery are collaborators: the outcome of each
  of their calls is a field of the records below. A pointer is an option, \<open>None\<close> the
  null pointer, and a call through a null pointer is the fault \<open>NullDereference\<close>.
  Logging is left out.
\<close>

text \<open>
  A \<open>FunctionCaller\<close>: \<open>WriteFunctionArguments\<close> gives the value it leaves in
  \<open>args_addr\<close> and its return value; \<open>ExecuteFunction\<close>, given \<open>args_addr\<close>, tells
  whether the call returned \<open>eExpressionCompleted\<close>.
\<close>

record FunctionCaller =
  WriteFunctionArguments :: "addr_t \<times> bool"
  ExecuteFunction :: "addr_t \<Rightarrow> bool"

text \<open>
  A \<open>UtilityFunction\<close>: the return value of \<open>Install\<close>; for \<open>MakeFunctionCaller\<close> the
  pointer it returns, whether it reports an error, and the caller the utility function
  holds afterwards; and the caller that \<open>GetFunctionCaller\<close> returns.
\<close>

record UtilityFunction =
  Install :: bool
  MakeFunctionCaller :: "FunctionCaller option \<times> bool \<times> FunctionCaller option"
  GetFunctionCaller :: "FunctionCaller option"

text \<open>
  The inferior as seen by one call of a handler: \<open>AllocateMemory\<close> gives the address and
  whether the error is a success, \<open>GetUtilityFunctionForLanguage\<close> the pointer and
  whether the error is a failure, \<open>ReadUnsignedIntegerFromMemory\<close>, given the address and
  the fail value, the value returned and whether the error is a success.
\<close>

record Inferior =
  SafeToCallFunctions :: bool
  AllocateMemory :: "addr_t \<times> bool"
  GetUtilityFunctionForLanguage :: "UtilityFunction option \<times> bool"
  ReadUnsignedIntegerFromMemory :: "addr_t \<Rightarrow> 64 word \<Rightarrow> 64 word \<times> bool"

record GetQueuesReturnInfo =
  queues_buffer_ptr :: addr_t
  queues_buffer_size :: "64 word"
  count_queues :: "64 word"

record GetPendingItemsReturnInfo =
  items_buffer_ptr :: addr_t
  items_buffer_size :: "64 word"
  count_items :: "64 word"

record AppleGetQueuesHandler =
  m_get_queues_impl_code_up :: "UtilityFunction option"
  m_get_queues_return_buffer_addr :: addr_t

record AppleGetPendingItemsHandler =
  m_get_pending_items_impl_code :: "UtilityFunction option"
  m_get_pending_items_return_buffer_addr :: addr_t

text \<open>
  \<open>SetupGetQueuesFunction\<close>. The text of the injected function is a string constant of
  the file, so the branch for a null text is dead. The function caller is made on every
  call, outside the block that creates the utility function.
\<close>

definition make_get_queues_caller ::
  "UtilityFunction \<Rightarrow> AppleGetQueuesHandler \<Rightarrow> fault + (addr_t \<times> AppleGetQueuesHandler)" where
  "make_get_queues_caller impl h =
     (let (get_queues_caller, failed, held) = MakeFunctionCaller impl;
          h' = h\<lparr>m_get_queues_impl_code_up := Some (impl\<lparr>GetFunctionCaller := held\<rparr>)\<rparr>
      in if failed then Inr (LLDB_INVALID_ADDRESS, h')
         else (case get_queues_caller of
                 None \<Rightarrow> Inl NullDereference
               | Some caller \<Rightarrow> Inr (fst (WriteFunctionArguments caller), h')))"

definition SetupGetQueuesFunction ::
  "Inferior \<Rightarrow> AppleGetQueuesHandler \<Rightarrow> fault + (addr_t \<times> AppleGetQueuesHandler)" where
  "SetupGetQueuesFunction inferior h =
     (case m_get_queues_impl_code_up h of
        Some impl \<Rightarrow> make_get_queues_caller impl h
      | None \<Rightarrow>
          (let (utility, failed) = GetUtilityFunctionForLanguage inferior;
               h1 = h\<lparr>m_get_queues_impl_code_up := utility\<rparr>
           in if failed then Inr (LLDB_INVALID_ADDRESS, h1)
              else (case utility of
                      None \<Rightarrow> Inl NullDereference
                    | Some impl \<Rightarrow>
                        if \<not> Install impl
                        then Inr (LLDB_INVALID_ADDRESS, h\<lparr>m_get_queues_impl_code_up := None\<rparr>)
                        else make_get_queues_caller impl h1)))"

text \<open>
  \<open>SetupGetPendingItemsFunction\<close>. Here the function caller is made inside the block
  that creates the utility function, a failure to make it resets the utility function, and
  a null caller (also on every call that finds the utility function in place) returns the
  invalid address.
\<close>

definition SetupGetPendingItemsFunction ::
  "Inferior \<Rightarrow> AppleGetPendingItemsHandler
     \<Rightarrow> fault + (addr_t \<times> AppleGetPendingItemsHandler)" where
  "SetupGetPendingItemsFunction inferior h =
     (case m_get_pending_items_impl_code h of
        Some impl \<Rightarrow> Inr (LLDB_INVALID_ADDRESS, h)
      | None \<Rightarrow>
          (let (utility, failed) = GetUtilityFunctionForLanguage inferior;
               h1 = h\<lparr>m_get_pending_items_impl_code := utility\<rparr>
           in if failed then Inr (LLDB_INVALID_ADDRESS, h1)
              else (case utility of
                      None \<Rightarrow> Inl NullDereference
                    | Some impl \<Rightarrow>
                        if \<not> Install impl
                        then Inr (LLDB_INVALID_ADDRESS,
                                  h\<lparr>m_get_pending_items_impl_code := None\<rparr>)
                        else
                          (let (get_pending_items_caller, make_failed, held) =
                                 MakeFunctionCaller impl;
                               h2 = h\<lparr>m_get_pending_items_impl_code :=
                                        Some (impl\<lparr>GetFunctionCaller := held\<rparr>)\<rparr>
                           in if make_failed
                              then Inr (LLDB_INVALID_ADDRESS,
                                        h\<lparr>m_get_pending_items_impl_code := None\<rparr>)
                              else (case get_pending_items_caller of
                                      None \<Rightarrow> Inr (LLDB_INVALID_ADDRESS, h2)
                                    | Some caller \<Rightarrow>
                                        Inr (fst (WriteFunctionArguments caller), h2))))))"

text \<open>
  The three reads that end both handlers: the buffer pointer at the return buffer, the
  buffer size 8 bytes further, the count 16 bytes further. A failed read, or a pointer
  read as the invalid address, sets the pointer to the invalid address and returns what
  has been stored so far.
\<close>

definition read_return_buffer :: "Inferior \<Rightarrow> addr_t \<Rightarrow> addr_t \<times> 64 word \<times> 64 word" where
  "read_return_buffer inferior return_buffer_addr =
     (let (buffer_ptr, success) =
            ReadUnsignedIntegerFromMemory inferior return_buffer_addr LLDB_INVALID_ADDRESS
      in if \<not> success \<or> buffer_ptr = LLDB_INVALID_ADDRESS then (LLDB_INVALID_ADDRESS, 0, 0)
         else
           (let (buffer_size, success) =
                  ReadUnsignedIntegerFromMemory inferior (return_buffer_addr + 8) 0
            in if \<not> success then (LLDB_INVALID_ADDRESS, buffer_size, 0)
               else
                 (let (n, success) =
                        ReadUnsignedIntegerFromMemory inferior (return_buffer_addr + 16) 0
                  in if \<not> success then (LLDB_INVALID_ADDRESS, buffer_size, n)
                     else (buffer_ptr, buffer_size, n))))"

text \<open>
  \<open>GetCurrentQueues\<close>. The error of the caller is cleared on entry and is a success
  whenever the allocation has not failed, so the test of it after \<open>ExecuteFunction\<close> never
  fires. After the setup the utility function is tested for null before it is used.
\<close>

definition GetCurrentQueues ::
  "Inferior \<Rightarrow> AppleGetQueuesHandler \<Rightarrow> fault + (GetQueuesReturnInfo \<times> AppleGetQueuesHandler)"
  where
  "GetCurrentQueues inferior h =
     (let return_value = \<lparr>queues_buffer_ptr = LLDB_INVALID_ADDRESS,
                           queues_buffer_size = 0, count_queues = 0\<rparr>
      in if \<not> SafeToCallFunctions inferior then Inr (return_value, h)
         else
           (let (bufaddr, success) = AllocateMemory inferior
            in if m_get_queues_return_buffer_addr h = LLDB_INVALID_ADDRESS \<and>
                  (\<not> success \<or> bufaddr = LLDB_INVALID_ADDRESS)
               then Inr (return_value, h)
               else
                 (let h1 = (if m_get_queues_return_buffer_addr h = LLDB_INVALID_ADDRESS
                            then h\<lparr>m_get_queues_return_buffer_addr := bufaddr\<rparr> else h)
                  in case SetupGetQueuesFunction inferior h1 of
                       Inl f \<Rightarrow> Inl f
                     | Inr (args_addr, h2) \<Rightarrow>
                         (case m_get_queues_impl_code_up h2 of
                            None \<Rightarrow> Inr (return_value, h2)
                          | Some impl \<Rightarrow>
                              (case GetFunctionCaller impl of
                                 None \<Rightarrow> Inr (return_value, h2)
                               | Some get_queues_caller \<Rightarrow>
                                   if \<not> ExecuteFunction get_queues_caller args_addr
                                   then Inr (return_value, h2)
                                   else
                                     (let (buffer_ptr, buffer_size, n) =
                                            read_return_buffer inferior
                                              (m_get_queues_return_buffer_addr h2)
                                      in Inr (\<lparr>queues_buffer_ptr = buffer_ptr,
                                                queues_buffer_size = buffer_size,
                                                count_queues = n\<rparr>, h2)))))))"

text \<open>
  \<open>GetPendingItems\<close>. It differs from \<open>GetCurrentQueues\<close> after the setup: the
  function caller is fetched through \<open>m_get_pending_items_impl_code\<close> with no test of
  that pointer.
\<close>

definition GetPendingItems ::
  "Inferior \<Rightarrow> AppleGetPendingItemsHandler
     \<Rightarrow> fault + (GetPendingItemsReturnInfo \<times> AppleGetPendingItemsHandler)" where
  "GetPendingItems inferior h =
     (let return_value = \<lparr>items_buffer_ptr = LLDB_INVALID_ADDRESS,
                           items_buffer_size = 0, count_items = 0\<rparr>
      in if \<not> SafeToCallFunctions inferior then Inr (return_value, h)
         else
           (let (bufaddr, success) = AllocateMemory inferior
            in if m_get_pending_items_return_buffer_addr h = LLDB_INVALID_ADDRESS \<and>
                  (\<not> success \<or> bufaddr = LLDB_INVALID_ADDRESS)
               then Inr (return_value, h)
               else
                 (let h1 = (if m_get_pending_items_return_buffer_addr h = LLDB_INVALID_ADDRESS
                            then h\<lparr>m_get_pending_items_return_buffer_addr := bufaddr\<rparr>
                            else h)
                  in case SetupGetPendingItemsFunction inferior h1 of
                       Inl f \<Rightarrow> Inl f
                     | Inr (args_addr, h2) \<Rightarrow>
                         (case m_get_pending_items_impl_code h2 of
                            None \<Rightarrow> Inl NullDereference
                          | Some impl \<Rightarrow>
                              (case GetFunctionCaller impl of
                                 None \<Rightarrow> Inr (return_value, h2)
                               | Some get_pending_items_caller \<Rightarrow>
                                   if \<not> ExecuteFunction get_pending_items_caller args_addr
                                   then Inr (return_value, h2)
                                   else
                                     (let (buffer_ptr, buffer_size, n) =
                                            read_return_buffer inferior
                                              (m_get_pending_items_return_buffer_addr h2)
                                      in Inr (\<lparr>items_buffer_ptr = buffer_ptr,
                                                items_buffer_size = buffer_size,
                                                count_items = n\<rparr>, h2)))))))"

text \<open>
  A handler that has not been used yet, and an inferior in which the thread is safe, the
  return buffer is allocated at 0x7000, the utility function is created, and its
  installation fails.
\<close>

definition uninstallable_utility :: UtilityFunction where
  "uninstallable_utility =
     \<lparr>Install = False, MakeFunctionCaller = (None, True, None), GetFunctionCaller = None\<rparr>"

definition install_failure_inferior :: Inferior where
  "install_failure_inferior =
     \<lparr>SafeToCallFunctions = True,
      AllocateMemory = (0x7000, True),
      GetUtilityFunctionForLanguage = (Some uninstallable_utility, False),
      ReadUnsignedIntegerFromMemory = (\<lambda>a fail_value. (fail_value, False))\<rparr>"

definition fresh_queues_handler :: AppleGetQueuesHandler where
  "fresh_queues_handler =
     \<lparr>m_get_queues_impl_code_up = None,
      m_get_queues_return_buffer_addr = LLDB_INVALID_ADDRESS\<rparr>"

definition fresh_pending_items_handler :: AppleGetPendingItemsHandler where
  "fresh_pending_items_handler =
     \<lparr>m_get_pending_items_impl_code = None,
      m_get_pending_items_return_buffer_addr = LLDB_INVALID_ADDRESS\<rparr>"

section \<open>Properties of the sort\<close>

lemma SymbolIndexComparator_scenario:
  "SymbolIndexComparator scenario_symbols 0 0 = False"
  "SymbolIndexComparator scenario_symbols 0 1 = True"
  "SymbolIndexComparator scenario_symbols 1 0 = False"
  "SymbolIndexComparator scenario_symbols 1 1 = False"
  "SymbolIndexComparator scenario_symbols 1 2 = True"
  "SymbolIndexComparator scenario_symbols 2 1 = False"
  "SymbolIndexComparator scenario_symbols 2 2 = False"
  "SymbolIndexComparator scenario_symbols 0 2 = True"
  "SymbolIndexComparator scenario_symbols 2 0 = False"
  by (simp_all add: SymbolIndexComparator_def compare_values_def scenario_symbols_def
      scenario_foo_def scenario_bar_def scenario_g_var_def)

lemma cached_address_eq:
  assumes "index_a < length addr_cache"
    and "\<forall>i < length addr_cache. addr_cache ! i = LLDB_INVALID_ADDRESS \<or> addr_cache ! i = FileAddress (symbols ! i)"
  shows "fst (cached_address symbols addr_cache index_a) = FileAddress (symbols ! index_a)"
    and "length (snd (cached_address symbols addr_cache index_a)) = length addr_cache"
    and "\<forall>i < length addr_cache. snd (cached_address symbols addr_cache index_a) ! i = LLDB_INVALID_ADDRESS
           \<or> snd (cached_address symbols addr_cache index_a) ! i = FileAddress (symbols ! i)"
  using assms by (auto simp: cached_address_def Let_def nth_list_update)

lemma SymbolIndexComparator_cached_eq:
  assumes "index_a < length addr_cache" "index_b < length addr_cache"
    and "\<forall>i < length addr_cache. addr_cache ! i = LLDB_INVALID_ADDRESS \<or> addr_cache ! i = FileAddress (symbols ! i)"
  shows "fst (SymbolIndexComparator_cached symbols addr_cache index_a index_b)
           = SymbolIndexComparator symbols index_a index_b"
proof -
  obtain va c1 where a: "cached_address symbols addr_cache index_a = (va, c1)"
    by (cases "cached_address symbols addr_cache index_a")
  obtain vb c2 where b: "cached_address symbols c1 index_b = (vb, c2)"
    by (cases "cached_address symbols c1 index_b")
  from cached_address_eq [OF assms(1,3)] a
  have va: "va = FileAddress (symbols ! index_a)" and l1: "length c1 = length addr_cache"
    and i1: "\<forall>i < length c1. c1 ! i = LLDB_INVALID_ADDRESS \<or> c1 ! i = FileAddress (symbols ! i)"
    by simp_all
  from assms(2) l1 have "index_b < length c1" by simp
  from cached_address_eq(1) [OF this i1] b have vb: "vb = FileAddress (symbols ! index_b)"
    by simp
  show ?thesis
    by (simp add: SymbolIndexComparator_cached_def SymbolIndexComparator_def a b va vb)
qed

lemma SymbolIndexComparator_less:
  "SymbolIndexComparator symbols a b \<longleftrightarrow> index_sort_key symbols a < index_sort_key symbols b"
  by (auto simp: SymbolIndexComparator_def compare_values_def index_sort_key_def Let_def
      less_prod_def)

lemma stable_insert_insort_key:
  "stable_insert (\<lambda>a b. f a < f b) x ys = insort_key f x ys"
  by (induction ys) (auto simp: not_less)

lemma std_stable_sort_sort_key:
  "std_stable_sort (SymbolIndexComparator symbols) xs = sort_key (index_sort_key symbols) xs"
proof -
  have "SymbolIndexComparator symbols = (\<lambda>a b. index_sort_key symbols a < index_sort_key symbols b)"
    by (intro ext) (rule SymbolIndexComparator_less)
  then show ?thesis
    by (simp add: std_stable_sort_def sort_key_def stable_insert_insort_key [abs_def])
qed

text \<open>
  Without duplicate removal the function does what the specification says of the sort:
  on a list of positions of the table it returns a rearrangement of the list that
  ascends by file address and, among equal addresses, by symbol id, and sorting that
  result again changes nothing.
\<close>

lemma SortSymbolIndexesByValue_orders:
  assumes "list_all (\<lambda>i. i < length symbols) indexes"
  shows "\<exists>ys. SortSymbolIndexesByValue symbols indexes False = Inr ys
           \<and> mset ys = mset indexes
           \<and> sorted (map (index_sort_key symbols) ys)
           \<and> SortSymbolIndexesByValue symbols ys False = Inr ys"
proof (cases "length indexes \<le> 1")
  case True
  then have "sorted (map (index_sort_key symbols) indexes)"
    by (cases indexes) (auto simp: le_Suc_eq)
  with True show ?thesis
    by (simp add: SortSymbolIndexesByValue_def)
next
  case False
  let ?ys = "sort_key (index_sort_key symbols) indexes"
  have len: "length ?ys = length indexes" by simp
  have all: "list_all (\<lambda>i. i < length symbols) ?ys"
    using assms by (simp add: list_all_iff)
  have idem: "sort_key (index_sort_key symbols) ?ys = ?ys"
    by (simp add: sort_key_id_if_sorted)
  from False assms all len idem show ?thesis
    by (simp add: SortSymbolIndexesByValue_def std_stable_sort_sort_key)
qed

text \<open>
  C1. With \<open>remove_duplicates\<close> set, the list that \<open>SortSymbolIndexesByValue\<close> leaves
  behind for the input \<open>[0, 0]\<close> is still \<open>[0, 0]\<close>: the duplicate index value is not
  removed, because the iterator returned by \<open>std::unique\<close> is never used to erase.
\<close>

theorem SortSymbolIndexesByValue_keeps_duplicates:
  "SortSymbolIndexesByValue scenario_symbols [0, 0] True = Inr [0, 0]"
  by (simp add: SortSymbolIndexesByValue_def std_stable_sort_def std_unique_def
      SymbolIndexComparator_scenario scenario_symbols_def)

text \<open>
  C5. With \<open>remove_duplicates\<close> set, the list left for the input \<open>[0, 0, 1, 1, 2]\<close> on
  the scenario table is \<open>[0, 1, 2, 1, 2]\<close>: position 1 follows position 2 although its
  symbol has the smaller file address. The tail that \<open>std::unique\<close> leaves behind is
  never erased, so the result is not in ascending order of address.
\<close>

theorem SortSymbolIndexesByValue_unsorted_tail:
  "SortSymbolIndexesByValue scenario_symbols [0, 0, 1, 1, 2] True = Inr [0, 1, 2, 1, 2] \<and>
   FileAddress (scenario_symbols ! 1) < FileAddress (scenario_symbols ! 2)"
  by code_simp

section \<open>Properties of the name indexes\<close>

text \<open>
  C4. Running \<open>InitNameIndexes\<close> a second time changes nothing: the first run sets the
  computed flag, and a run that finds the flag set returns the table as it is, so the
  four name indexes are the same after two runs as after one.
\<close>

theorem InitNameIndexes_idempotent:
  "m_name_indexes_computed (InitNameIndexes langs st) \<and>
   InitNameIndexes langs (InitNameIndexes langs st) = InitNameIndexes langs st"
  by (simp add: InitNameIndexes_def Let_def)

lemma index_mangled_name_cases:
  assumes "b' = index_mangled_name langs objfile n symbol cstring b"
  shows "(\<exists>c. mangled_name_to_index b' = mangled_name_to_index b @ [(c, n)] \<and>
              symbol_contexts b' = (symbol_contexts b)[n := ctx_of langs symbol] \<and>
              ctx_of langs symbol \<noteq> [] \<and>
              method_to_index b' = method_to_index b \<and>
              basename_to_index b' = basename_to_index b)
       \<or> (mangled_name_to_index b' = mangled_name_to_index b \<and>
            symbol_contexts b' = symbol_contexts b \<and>
            (\<exists>ms bs. method_to_index b' = method_to_index b @ ms \<and>
                     basename_to_index b' = basename_to_index b @ bs \<and>
                     (\<forall>e \<in> set ms \<union> set bs. snd e = n)))"
  unfolding assms index_mangled_name_def ctx_of_def Let_def
  by (simp split: if_splits)

lemma index_symbol_cases:
  assumes "b' = index_symbol langs objfile (n, symbol) b"
  shows "(\<exists>c. mangled_name_to_index b' = mangled_name_to_index b @ [(c, n)] \<and>
              symbol_contexts b' = (symbol_contexts b)[n := ctx_of langs symbol] \<and>
              ctx_of langs symbol \<noteq> [] \<and>
              method_to_index b' = method_to_index b \<and>
              basename_to_index b' = basename_to_index b)
       \<or> (mangled_name_to_index b' = mangled_name_to_index b \<and>
            symbol_contexts b' = symbol_contexts b \<and>
            (\<exists>ms bs. method_to_index b' = method_to_index b @ ms \<and>
                     basename_to_index b' = basename_to_index b @ bs \<and>
                     (\<forall>e \<in> set ms \<union> set bs. snd e = n)))"
proof -
  define b1 where "b1 = (if MangledName symbol \<noteq> []
                 then index_mangled_name langs objfile n symbol (MangledName symbol) b
                 else b)"
  have step1: "(\<exists>c. mangled_name_to_index b1 = mangled_name_to_index b @ [(c, n)] \<and>
              symbol_contexts b1 = (symbol_contexts b)[n := ctx_of langs symbol] \<and>
              ctx_of langs symbol \<noteq> [] \<and>
              method_to_index b1 = method_to_index b \<and>
              basename_to_index b1 = basename_to_index b)
       \<or> (mangled_name_to_index b1 = mangled_name_to_index b \<and>
            symbol_contexts b1 = symbol_contexts b \<and>
            (\<exists>ms bs. method_to_index b1 = method_to_index b @ ms \<and>
                     basename_to_index b1 = basename_to_index b @ bs \<and>
                     (\<forall>e \<in> set ms \<union> set bs. snd e = n)))"
  proof (cases "MangledName symbol \<noteq> []")
    case True
    then have "b1 = index_mangled_name langs objfile n symbol (MangledName symbol) b"
      by (simp add: b1_def)
    then show ?thesis by (rule index_mangled_name_cases)
  next
    case False
    then have "b1 = b" by (simp add: b1_def)
    then show ?thesis by simp
  qed
  have rest: "mangled_name_to_index b' = mangled_name_to_index b1 \<and>
        symbol_contexts b' = symbol_contexts b1 \<and>
        method_to_index b' = method_to_index b1 \<and>
        basename_to_index b' = basename_to_index b1 \<or> b' = b"
    unfolding assms index_symbol_def b1_def Let_def
    by (simp split: if_splits)
  then show ?thesis
  proof
    assume "b' = b"
    then show ?thesis by simp
  next
    assume "mangled_name_to_index b' = mangled_name_to_index b1 \<and>
        symbol_contexts b' = symbol_contexts b1 \<and>
        method_to_index b' = method_to_index b1 \<and>
        basename_to_index b' = basename_to_index b1"
    with step1 show ?thesis by simp
  qed
qed


lemma pass_inv_step:
  assumes inv: "pass_inv langs symbols b0 n b" and n: "n < length symbols"
  shows "pass_inv langs symbols b0 (Suc n) (index_symbol langs objfile (n, symbols ! n) b)"
proof -
  let ?b' = "index_symbol langs objfile (n, symbols ! n) b"
  from inv have len: "length (symbol_contexts b) = length symbols"
    and old: "\<And>e. e \<in> set (mangled_name_to_index b) \<Longrightarrow>
        snd e < n \<and> symbol_contexts b ! snd e = ctx_of langs (symbols ! snd e) \<and>
        ctx_of langs (symbols ! snd e) \<noteq> []"
    and dist: "distinct (map snd (mangled_name_to_index b))"
    and keep: "\<And>v. n \<le> v \<or> v \<in> snd ` set (mangled_name_to_index b) \<Longrightarrow>
        filter (\<lambda>e. snd e = v) (method_to_index b) = filter (\<lambda>e. snd e = v) (method_to_index b0) \<and>
        filter (\<lambda>e. snd e = v) (basename_to_index b) = filter (\<lambda>e. snd e = v) (basename_to_index b0)"
    unfolding pass_inv_def by blast+
  have fresh: "n \<notin> snd ` set (mangled_name_to_index b)"
    using old by fastforce
  from index_symbol_cases [OF refl, of langs objfile n "symbols ! n" b]
  consider (deferred) c where "mangled_name_to_index ?b' = mangled_name_to_index b @ [(c, n)]"
      "symbol_contexts ?b' = (symbol_contexts b)[n := ctx_of langs (symbols ! n)]"
      "ctx_of langs (symbols ! n) \<noteq> []"
      "method_to_index ?b' = method_to_index b" "basename_to_index ?b' = basename_to_index b"
    | (other) ms bs where "mangled_name_to_index ?b' = mangled_name_to_index b"
      "symbol_contexts ?b' = symbol_contexts b"
      "method_to_index ?b' = method_to_index b @ ms" "basename_to_index ?b' = basename_to_index b @ bs"
      "\<forall>e \<in> set ms \<union> set bs. snd e = n"
    by blast
  then show ?thesis
  proof cases
    case deferred
    have "snd e < Suc n \<and> symbol_contexts ?b' ! snd e = ctx_of langs (symbols ! snd e) \<and>
        ctx_of langs (symbols ! snd e) \<noteq> []" if "e \<in> set (mangled_name_to_index ?b')" for e
    proof (cases "e = (c, n)")
      case True
      with deferred len n show ?thesis by simp
    next
      case False
      with that deferred have "e \<in> set (mangled_name_to_index b)" by simp
      from old [OF this] deferred(2) show ?thesis by (simp add: nth_list_update)
    qed
    moreover have "distinct (map snd (mangled_name_to_index ?b'))"
      using deferred(1) dist fresh by simp
    moreover have "filter (\<lambda>e. snd e = v) (method_to_index ?b') = filter (\<lambda>e. snd e = v) (method_to_index b0) \<and>
        filter (\<lambda>e. snd e = v) (basename_to_index ?b') = filter (\<lambda>e. snd e = v) (basename_to_index b0)"
      if "Suc n \<le> v \<or> v \<in> snd ` set (mangled_name_to_index ?b')" for v
    proof -
      from that deferred(1) have "n \<le> v \<or> v \<in> snd ` set (mangled_name_to_index b)" by auto
      from keep [OF this] deferred(4,5) show ?thesis by simp
    qed
    ultimately show ?thesis using len deferred(2) by (simp add: pass_inv_def)
  next
    case other
    have "filter (\<lambda>e. snd e = v) (method_to_index ?b') = filter (\<lambda>e. snd e = v) (method_to_index b0) \<and>
        filter (\<lambda>e. snd e = v) (basename_to_index ?b') = filter (\<lambda>e. snd e = v) (basename_to_index b0)"
      if "Suc n \<le> v \<or> v \<in> snd ` set (mangled_name_to_index ?b')" for v
    proof -
      from that other(1) fresh have v: "v \<noteq> n" "n \<le> v \<or> v \<in> snd ` set (mangled_name_to_index b)"
        by auto
      from v(1) other(5) have "filter (\<lambda>e. snd e = v) ms = []" "filter (\<lambda>e. snd e = v) bs = []"
        by (auto simp: filter_empty_conv)
      with keep [OF v(2)] other(3,4) show ?thesis by simp
    qed
    moreover have "snd e < Suc n \<and> symbol_contexts ?b' ! snd e = ctx_of langs (symbols ! snd e) \<and>
        ctx_of langs (symbols ! snd e) \<noteq> []" if "e \<in> set (mangled_name_to_index ?b')" for e
      using old [of e] that other(1,2) by auto
    ultimately show ?thesis using len dist other(1,2) by (simp add: pass_inv_def)
  qed
qed

lemma pass_inv_fold:
  assumes "pass_inv langs (pre @ syms) b0 (length pre) b"
  shows "pass_inv langs (pre @ syms) b0 (length (pre @ syms))
           (fold (index_symbol langs objfile) (enumerate (length pre) syms) b)"
  using assms
proof (induction syms arbitrary: pre b)
  case Nil
  then show ?case by simp
next
  case (Cons x xs)
  have "pass_inv langs (pre @ x # xs) b0 (Suc (length pre))
          (index_symbol langs objfile (length pre, (pre @ x # xs) ! length pre) b)"
    using Cons.prems by (intro pass_inv_step) simp_all
  then have "pass_inv langs ((pre @ [x]) @ xs) b0 (length (pre @ [x]))
          (index_symbol langs objfile (length pre, x) b)"
    by simp
  from Cons.IH [OF this] show ?case by simp
qed

lemma first_pass_inv:
  "pass_inv langs (m_symbols st)
     \<lparr>name_to_index = m_name_to_index st, basename_to_index = m_basename_to_index st,
        method_to_index = m_method_to_index st, selector_to_index = m_selector_to_index st,
        class_contexts = {}, mangled_name_to_index = [],
        symbol_contexts = replicate (length (m_symbols st)) []\<rparr>
     (length (m_symbols st)) (first_pass langs st)"
proof -
  let ?b0 = "\<lparr>name_to_index = m_name_to_index st, basename_to_index = m_basename_to_index st,
        method_to_index = m_method_to_index st, selector_to_index = m_selector_to_index st,
        class_contexts = {}, mangled_name_to_index = [],
        symbol_contexts = replicate (length (m_symbols st)) []\<rparr>"
  have "pass_inv langs ([] @ m_symbols st) ?b0 (length ([] :: Symbol list)) ?b0"
    by (simp add: pass_inv_def)
  from pass_inv_fold [OF this, of "m_objfile st"] show ?thesis
    by (simp add: first_pass_def)
qed

lemma fold_resolve_deferred:
  "fold resolve_deferred ds b =
     b\<lparr>method_to_index := method_to_index b @ ds,
       basename_to_index := basename_to_index b @
         filter (\<lambda>e. \<not> (symbol_contexts b ! snd e \<noteq> [] \<and>
                       symbol_contexts b ! snd e \<in> class_contexts b)) ds\<rparr>"
proof (induction ds arbitrary: b)
  case Nil
  then show ?case by simp
next
  case (Cons d ds)
  obtain c v where d: "d = (c, v)" by (cases d)
  have step: "resolve_deferred (c, v) b =
     (if symbol_contexts b ! v \<noteq> [] \<and> symbol_contexts b ! v \<in> class_contexts b
      then b\<lparr>method_to_index := method_to_index b @ [(c, v)]\<rparr>
      else b\<lparr>method_to_index := method_to_index b @ [(c, v)],
             basename_to_index := basename_to_index b @ [(c, v)]\<rparr>)"
    by (simp add: resolve_deferred_def)
  show ?case
    by (cases "symbol_contexts b ! v \<noteq> [] \<and> symbol_contexts b ! v \<in> class_contexts b")
      (simp_all add: Cons.IH d step)
qed

lemma second_pass_eq:
  "second_pass b =
     b\<lparr>method_to_index := method_to_index b @ mangled_name_to_index b,
       basename_to_index := basename_to_index b @
         filter (\<lambda>e. \<not> (symbol_contexts b ! snd e \<noteq> [] \<and>
                       symbol_contexts b ! snd e \<in> class_contexts b)) (mangled_name_to_index b)\<rparr>"
  by (simp add: second_pass_def fold_resolve_deferred)

lemma count_list_filter_snd:
  "count_list xs e = count_list (filter (\<lambda>e'. snd e' = snd e) xs) e"
  by (induction xs) auto

lemma count_list_distinct_mem:
  "distinct xs \<Longrightarrow> e \<in> set xs \<Longrightarrow> count_list xs e = 1"
  by (induction xs) (auto simp: count_list_0_iff)

lemma count_list_sort_key: "count_list (sort_key f xs) e = count_list xs e"
  by (metis count_mset mset_sort)


lemma count_list_filter:
  "count_list (filter P xs) e = (if P e then count_list xs e else 0)"
  by (induction xs) auto

text \<open>
  C3. Take an entry that the first loop of \<open>InitNameIndexes\<close> deferred. It belongs to a
  symbol of the table whose demangled context is not empty, and that context is what
  was remembered for it. The run adds the entry once to the method index; it adds it
  to the basename index once if the context is not a class context at the end of the
  first loop, and not at all if it is.
\<close>

theorem InitNameIndexes_deferred_entries:
  assumes nc: "\<not> m_name_indexes_computed st"
    and mem: "(cstring, entry_value) \<in> set (mangled_name_to_index (first_pass langs st))"
  shows "entry_value < length (m_symbols st) \<and>
         symbol_contexts (first_pass langs st) ! entry_value
           = GetContext (CPlusPlus_MethodName langs (DemangledNameCxx (m_symbols st ! entry_value))) \<and>
         symbol_contexts (first_pass langs st) ! entry_value \<noteq> [] \<and>
         count_list (m_method_to_index (InitNameIndexes langs st)) (cstring, entry_value)
           = count_list (m_method_to_index st) (cstring, entry_value) + 1 \<and>
         count_list (m_basename_to_index (InitNameIndexes langs st)) (cstring, entry_value)
           = count_list (m_basename_to_index st) (cstring, entry_value) +
             (if symbol_contexts (first_pass langs st) ! entry_value
                   \<in> class_contexts (first_pass langs st)
              then 0 else 1)"
proof -
  let ?b1 = "first_pass langs st"
  let ?D = "mangled_name_to_index ?b1"
  let ?e = "(cstring, entry_value)"
  let ?b0 = "\<lparr>name_to_index = m_name_to_index st, basename_to_index = m_basename_to_index st,
        method_to_index = m_method_to_index st, selector_to_index = m_selector_to_index st,
        class_contexts = {}, mangled_name_to_index = [],
        symbol_contexts = replicate (length (m_symbols st)) []\<rparr>"
  note inv = first_pass_inv [of langs st, unfolded pass_inv_def]
  from inv mem have v: "entry_value < length (m_symbols st)"
    and ctx: "symbol_contexts ?b1 ! entry_value = ctx_of langs (m_symbols st ! entry_value)"
      "ctx_of langs (m_symbols st ! entry_value) \<noteq> []"
    by fastforce+
  from inv have "distinct (map snd ?D)" by blast
  then have "distinct ?D" by (simp add: distinct_map)
  from this mem have one: "count_list ?D ?e = 1" by (rule count_list_distinct_mem)
  from mem have "entry_value \<in> snd ` set ?D" by force
  with inv have keep:
    "filter (\<lambda>e. snd e = entry_value) (method_to_index ?b1) = filter (\<lambda>e. snd e = entry_value) (method_to_index ?b0)"
    "filter (\<lambda>e. snd e = entry_value) (basename_to_index ?b1) = filter (\<lambda>e. snd e = entry_value) (basename_to_index ?b0)"
    by blast+
  have m1: "count_list (method_to_index ?b1) ?e = count_list (m_method_to_index st) ?e"
    using keep(1) count_list_filter_snd [of "method_to_index ?b1" ?e]
      count_list_filter_snd [of "m_method_to_index st" ?e] by simp
  have b1: "count_list (basename_to_index ?b1) ?e = count_list (m_basename_to_index st) ?e"
    using keep(2) count_list_filter_snd [of "basename_to_index ?b1" ?e]
      count_list_filter_snd [of "m_basename_to_index st" ?e] by simp
  have "count_list (m_method_to_index (InitNameIndexes langs st)) ?e
          = count_list (m_method_to_index st) ?e + 1"
    using nc m1 one
    by (simp add: InitNameIndexes_def Let_def UniqueCStringMap_Sort_def count_list_sort_key
        second_pass_eq)
  moreover have "count_list (m_basename_to_index (InitNameIndexes langs st)) ?e
          = count_list (m_basename_to_index st) ?e +
             (if symbol_contexts ?b1 ! entry_value \<in> class_contexts ?b1 then 0 else 1)"
    using nc b1 one ctx
    by (simp add: InitNameIndexes_def Let_def UniqueCStringMap_Sort_def count_list_sort_key
        second_pass_eq count_list_filter)
  ultimately show ?thesis using v ctx by (simp add: ctx_of_def)
qed

theorem InitNameIndexes_deferred_entries_witness:
  "\<not> m_name_indexes_computed scenario_symtab \<and>
   (''foo'', 0) \<in> set (mangled_name_to_index (first_pass scenario_languages scenario_symtab)) \<and>
   count_list (m_method_to_index (InitNameIndexes scenario_languages scenario_symtab)) (''foo'', 0) = 1 \<and>
   count_list (m_basename_to_index (InitNameIndexes scenario_languages scenario_symtab)) (''foo'', 0) = 1 \<and>
   \<not> m_name_indexes_computed scenario_symtab_dtor \<and>
   (''foo'', 0) \<in> set (mangled_name_to_index (first_pass scenario_languages scenario_symtab_dtor)) \<and>
   count_list (m_method_to_index (InitNameIndexes scenario_languages scenario_symtab_dtor)) (''foo'', 0) = 1 \<and>
   count_list (m_basename_to_index (InitNameIndexes scenario_languages scenario_symtab_dtor)) (''foo'', 0) = 0"
proof -
  have nc: "\<not> m_name_indexes_computed scenario_symtab"
    and mem: "(''foo'', 0) \<in> set (mangled_name_to_index (first_pass scenario_languages scenario_symtab))"
    and unknown: "symbol_contexts (first_pass scenario_languages scenario_symtab) ! 0
        \<notin> class_contexts (first_pass scenario_languages scenario_symtab)"
    and m0: "count_list (m_method_to_index scenario_symtab) (''foo'', 0) = 0"
    and b0: "count_list (m_basename_to_index scenario_symtab) (''foo'', 0) = 0"
    by code_simp+
  have nc': "\<not> m_name_indexes_computed scenario_symtab_dtor"
    and mem': "(''foo'', 0) \<in> set (mangled_name_to_index (first_pass scenario_languages scenario_symtab_dtor))"
    and known: "symbol_contexts (first_pass scenario_languages scenario_symtab_dtor) ! 0
        \<in> class_contexts (first_pass scenario_languages scenario_symtab_dtor)"
    and m0': "count_list (m_method_to_index scenario_symtab_dtor) (''foo'', 0) = 0"
    and b0': "count_list (m_basename_to_index scenario_symtab_dtor) (''foo'', 0) = 0"
    by code_simp+
  from InitNameIndexes_deferred_entries [OF nc mem] unknown m0 b0
  have "count_list (m_method_to_index (InitNameIndexes scenario_languages scenario_symtab)) (''foo'', 0) = 1"
    "count_list (m_basename_to_index (InitNameIndexes scenario_languages scenario_symtab)) (''foo'', 0) = 1"
    by simp_all
  moreover from InitNameIndexes_deferred_entries [OF nc' mem'] known m0' b0'
  have "count_list (m_method_to_index (InitNameIndexes scenario_languages scenario_symtab_dtor)) (''foo'', 0) = 1"
    "count_list (m_basename_to_index (InitNameIndexes scenario_languages scenario_symtab_dtor)) (''foo'', 0) = 0"
    by simp_all
  ultimately show ?thesis using nc mem nc' mem' by simp
qed

section \<open>Properties of the address index\<close>

lemma Contains_section_bound:
  assumes "Contains r a"
  shows "unat a + unat (GetRangeSize r - (a - GetRangeBase r)) = unat (GetRangeBase r) + unat (GetRangeSize r)"
    and "GetRangeSize r - (a - GetRangeBase r) \<noteq> 0"
  using assms unfolding Contains_def by unat_arith+

lemma find_greater_sorted:
  fixes a :: "'a::linorder"
  shows "sorted xs \<Longrightarrow> b \<in> set xs \<Longrightarrow> a < b \<Longrightarrow> \<exists>nb. find (\<lambda>x. a < x) xs = Some nb \<and> a < nb \<and> nb \<le> b"
  by (induction xs) auto

lemma synthesized_size_cong:
  assumes "map GetRangeBase es = map GetRangeBase es'" and "k < length es"
  shows "synthesized_size secs es k = synthesized_size secs es' k"
proof -
  from assms have "length es' = length es" by (metis length_map)
  with assms have "GetRangeBase (es ! k) = GetRangeBase (es' ! k)"
    by (metis nth_map)
  with assms(1) show ?thesis by (simp add: synthesized_size_def)
qed

lemma synthesized_size_section_bound:
  assumes "FindEntryThatContains secs (GetRangeBase (es ! k)) = Some sec"
  shows "unat (GetRangeBase (es ! k)) + unat (synthesized_size secs es k)
           \<le> unat (GetRangeBase sec) + unat (GetRangeSize sec)"
proof -
  let ?a = "GetRangeBase (es ! k)"
  let ?S = "GetRangeSize sec - (?a - GetRangeBase sec)"
  from assms have c: "Contains sec ?a"
    by (auto simp: FindEntryThatContains_def find_Some_iff)
  note b = Contains_section_bound [OF c]
  show ?thesis
  proof (cases "find (\<lambda>next_base_addr. ?a < next_base_addr) (drop k (map GetRangeBase es))")
    case None
    with assms b show ?thesis by (simp add: synthesized_size_def)
  next
    case (Some nb)
    have "synthesized_size secs es k = (if nb - ?a < ?S then nb - ?a else ?S)"
      using assms Some b(2) by (simp add: synthesized_size_def Let_def)
    then have "unat (synthesized_size secs es k) \<le> unat ?S"
      by (auto simp: word_less_nat_alt)
    with b(1) show ?thesis by simp
  qed
qed

lemma synthesized_size_next_bound:
  assumes "sorted (map GetRangeBase es)" and "k < length es"
    and "b \<in> set (map GetRangeBase es)" and "GetRangeBase (es ! k) < b"
  shows "unat (GetRangeBase (es ! k)) + unat (synthesized_size secs es k) \<le> unat b"
proof -
  let ?a = "GetRangeBase (es ! k)"
  let ?B = "map GetRangeBase es"
  from assms(3) obtain p where p: "p < length ?B" "?B ! p = b"
    by (auto simp: in_set_conv_nth)
  have "k \<le> p"
  proof (rule ccontr)
    assume "\<not> k \<le> p"
    then have "p \<le> k" by simp
    moreover have "k < length ?B" using assms(2) by simp
    ultimately have "?B ! p \<le> ?B ! k" using assms(1) by (rule sorted_nth_mono [rotated])
    with p assms(2,4) show False by simp
  qed
  with p have "b \<in> set (drop k ?B)"
    by (auto simp: in_set_conv_nth intro!: exI [of _ "p - k"])
  moreover have "sorted (drop k ?B)" using assms(1) by (rule sorted_wrt_drop)
  ultimately obtain nb where nb: "find (\<lambda>x. ?a < x) (drop k ?B) = Some nb" "?a < nb" "nb \<le> b"
    using find_greater_sorted [of "drop k ?B" b ?a] assms(4) by blast
  define S where "S = (case FindEntryThatContains secs ?a of None \<Rightarrow> 0
     | Some sec \<Rightarrow> GetRangeSize sec - (?a - GetRangeBase sec))"
  have "synthesized_size secs es k = (if S = 0 \<or> nb - ?a < S then nb - ?a else S)"
    using nb(1) by (simp add: synthesized_size_def Let_def S_def)
  then have "synthesized_size secs es k \<le> nb - ?a"
    by auto
  then have "unat (synthesized_size secs es k) \<le> unat (nb - ?a)"
    by (simp add: word_le_nat_alt)
  moreover have "unat (nb - ?a) = unat nb - unat ?a"
    using nb(2) by (simp add: unat_sub word_less_nat_alt word_le_nat_alt)
  moreover have "unat ?a < unat nb" "unat nb \<le> unat b"
    using nb(2,3) by (simp_all add: word_less_nat_alt word_le_nat_alt)
  ultimately show ?thesis by simp
qed


declare fill_sizes.simps [simp del]

lemma fill_sizes_total:
  "list_all (\<lambda>e. data e < length symbols) entries \<Longrightarrow> \<exists>r. fill_sizes secs i entries symbols = Inr r"
proof (induction secs i entries symbols rule: fill_sizes.induct)
  case (1 secs i entries symbols)
  show ?case
  proof (cases "i < length entries")
    case False
    then show ?thesis by (subst fill_sizes.simps) simp
  next
    case True
    let ?e = "entries ! i"
    let ?sz = "synthesized_size secs entries i"
    from True "1.prems" have d: "data ?e < length symbols"
      by (simp add: list_all_length)
    show ?thesis
    proof (cases "GetRangeSize ?e = 0 \<and> 0 < ?sz")
      case False
      with True "1.IH"(2,3) "1.prems" show ?thesis
        by (subst fill_sizes.simps) (auto simp: Let_def)
    next
      case upd: True
      let ?entries1 = "entries[i := ?e\<lparr>GetRangeSize := ?sz\<rparr>]"
      let ?symbols1 = "symbols[data ?e := SetSizeIsSynthesized True (SetByteSize ?sz (symbols ! data ?e))]"
      have "list_all (\<lambda>e. data e < length ?symbols1) ?entries1"
        using "1.prems" True by (auto simp: list_all_length nth_list_update)
      with "1.IH"(1) [OF True _ refl _ d] upd
      have "\<exists>r. fill_sizes secs (Suc i) ?entries1 ?symbols1 = Inr r" by simp
      with True upd d show ?thesis
        by (subst fill_sizes.simps) (simp add: Let_def)
    qed
  qed
qed

lemma fill_sizes_result:
  "fill_sizes secs i entries symbols = Inr (entries', symbols') \<Longrightarrow>
     length symbols' = length symbols \<and>
     map GetRangeBase entries' = map GetRangeBase entries \<and>
     map data entries' = map data entries \<and>
     (\<forall>s < length symbols. symbols' ! s = symbols ! s \<or>
        (\<exists>k. i \<le> k \<and> k < length entries \<and> data (entries ! k) = s \<and>
             GetRangeSize (entries ! k) = 0 \<and>
             GetByteSize (symbols' ! s) = synthesized_size secs entries k))"
proof (induction secs i entries symbols rule: fill_sizes.induct)
  case (1 secs i entries symbols)
  note res = "1.prems"
  show ?case
  proof (cases "i < length entries")
    case False
    with res show ?thesis by (subst (asm) fill_sizes.simps) simp
  next
    case True
    let ?e = "entries ! i"
    let ?sz = "synthesized_size secs entries i"
    show ?thesis
    proof (cases "GetRangeSize ?e = 0 \<and> 0 < ?sz")
      case False
      with True res have "fill_sizes secs (Suc i) entries symbols = Inr (entries', symbols')"
        by (subst (asm) fill_sizes.simps) (auto simp: Let_def split: if_splits)
      with False True "1.IH"(2,3) have
        "length symbols' = length symbols \<and>
         map GetRangeBase entries' = map GetRangeBase entries \<and>
         map data entries' = map data entries \<and>
         (\<forall>s < length symbols. symbols' ! s = symbols ! s \<or>
            (\<exists>k. Suc i \<le> k \<and> k < length entries \<and> data (entries ! k) = s \<and>
               GetRangeSize (entries ! k) = 0 \<and>
               GetByteSize (symbols' ! s) = synthesized_size secs entries k))"
        by (cases "GetRangeSize ?e = 0") (auto simp: Let_def)
      then show ?thesis by (meson Suc_leD)
    next
      case upd: True
      let ?entries1 = "entries[i := ?e\<lparr>GetRangeSize := ?sz\<rparr>]"
      let ?symbols1 = "symbols[data ?e := SetSizeIsSynthesized True (SetByteSize ?sz (symbols ! data ?e))]"
      from True upd res have d: "data ?e < length symbols"
        by (subst (asm) fill_sizes.simps) (auto simp: Let_def split: if_splits)
      from True upd res d have rec: "fill_sizes secs (Suc i) ?entries1 ?symbols1 = Inr (entries', symbols')"
        by (subst (asm) fill_sizes.simps) (auto simp: Let_def)
      from "1.IH"(1) [OF True _ refl _ d rec] upd
      have ih: "length symbols' = length ?symbols1"
        "map GetRangeBase entries' = map GetRangeBase ?entries1"
        "map data entries' = map data ?entries1"
        "\<forall>s < length ?symbols1. symbols' ! s = ?symbols1 ! s \<or>
            (\<exists>k. Suc i \<le> k \<and> k < length ?entries1 \<and> data (?entries1 ! k) = s \<and>
               GetRangeSize (?entries1 ! k) = 0 \<and>
               GetByteSize (symbols' ! s) = synthesized_size secs ?entries1 k)"
        by simp_all
      have bases: "map GetRangeBase ?entries1 = map GetRangeBase entries"
        using True by (simp add: map_update list_update_same_conv)
      have datas: "map data ?entries1 = map data entries"
        using True by (simp add: map_update list_update_same_conv)
      have same: "synthesized_size secs ?entries1 k = synthesized_size secs entries k" if "k < length entries" for k
        using synthesized_size_cong [OF bases, of k secs] that by simp
      have "symbols' ! s = symbols ! s \<or>
            (\<exists>k. i \<le> k \<and> k < length entries \<and> data (entries ! k) = s \<and>
               GetRangeSize (entries ! k) = 0 \<and>
               GetByteSize (symbols' ! s) = synthesized_size secs entries k)"
        if s: "s < length symbols" for s
      proof -
        from ih(4) s consider "symbols' ! s = ?symbols1 ! s"
          | k where "Suc i \<le> k" "k < length entries" "data (?entries1 ! k) = s"
               "GetRangeSize (?entries1 ! k) = 0"
               "GetByteSize (symbols' ! s) = synthesized_size secs ?entries1 k"
          by auto
        then show ?thesis
        proof cases
          case 1
          show ?thesis
          proof (cases "s = data ?e")
            case True
            with 1 s have "GetByteSize (symbols' ! s) = ?sz"
              by (simp add: SetByteSize_def SetSizeIsSynthesized_def)
            with True upd \<open>i < length entries\<close> show ?thesis by blast
          next
            case False
            with 1 show ?thesis by simp
          qed
        next
          case (2 k)
          then have "k \<noteq> i" by simp
          with 2 same [of k] have "i \<le> k \<and> k < length entries \<and> data (entries ! k) = s \<and>
               GetRangeSize (entries ! k) = 0 \<and>
               GetByteSize (symbols' ! s) = synthesized_size secs entries k"
            by simp
          then show ?thesis by blast
        qed
      qed
      with ih(1,2,3) bases datas show ?thesis by simp
    qed
  qed
qed


lemma address_entries_sound:
  "e \<in> set (address_entries symbols) \<Longrightarrow>
     data e < length symbols \<and> GetRangeBase e = FileAddress (symbols ! data e) \<and>
     GetRangeSize e = GetByteSize (symbols ! data e)"
  by (auto simp: address_entries_def in_set_enumerate_eq)

lemma address_entries_complete:
  assumes "j < length symbols" and "ValueIsAddress (symbols ! j)"
  shows "FileAddress (symbols ! j) \<in> set (map GetRangeBase (address_entries symbols))"
proof -
  from assms have "(j, symbols ! j) \<in> set (filter (\<lambda>(idx, s). ValueIsAddress s) (enumerate 0 symbols))"
    by (simp add: in_set_enumerate_eq)
  then have "GetRangeBase (\<lparr>GetRangeBase = FileAddress (symbols ! j), GetRangeSize = GetByteSize (symbols ! j), data = j\<rparr>)
      \<in> GetRangeBase ` set (address_entries symbols)"
    unfolding address_entries_def set_map by (intro imageI) force
  then show ?thesis by simp
qed

lemma set_RangeDataVector_Sort: "set (RangeDataVector_Sort es) = set es"
  by (simp add: RangeDataVector_Sort_def)

lemma sorted_RangeDataVector_Sort: "sorted (map GetRangeBase (RangeDataVector_Sort es))"
proof -
  let ?key = "\<lambda>e::RangeData. (GetRangeBase e, GetRangeSize e, data e)"
  have "sorted (map ?key (sort_key ?key es))" by (rule sorted_sort_key)
  then have "sorted_wrt (\<lambda>x y. ?key x \<le> ?key y) (sort_key ?key es)"
    by (simp add: sorted_map)
  then have "sorted_wrt (\<lambda>x y. GetRangeBase x \<le> GetRangeBase y) (sort_key ?key es)"
    by (rule sorted_wrt_mono_rel [rotated]) (auto simp: less_eq_prod_def)
  then show ?thesis by (simp add: sorted_map RangeDataVector_Sort_def)
qed



text \<open>What a run of \<open>InitAddressIndexes\<close> on a table without an address index gives.\<close>

lemma InitAddressIndexes_fresh:
  assumes "\<not> m_file_addr_to_index_computed st" and "m_file_addr_to_index st = []"
  shows "\<exists>st'. InitAddressIndexes st = Inr st' \<and>
           length (m_symbols st') = length (m_symbols st) \<and>
           list_all (\<lambda>e. data e < length (m_symbols st')) (m_file_addr_to_index st') \<and>
           (\<forall>s < length (m_symbols st). m_symbols st' ! s = m_symbols st ! s \<or>
              (GetByteSize (m_symbols st ! s) = 0 \<and>
               (\<exists>k < length (address_entries (m_symbols st)).
                  GetRangeBase (RangeDataVector_Sort (address_entries (m_symbols st)) ! k)
                    = FileAddress (m_symbols st ! s) \<and>
                  GetByteSize (m_symbols st' ! s)
                    = synthesized_size (section_ranges_of (m_objfile st))
                        (RangeDataVector_Sort (address_entries (m_symbols st))) k)))"
proof (cases "m_symbols st = [] \<or> address_entries (m_symbols st) = []")
  case True
  with assms show ?thesis
    by (auto simp: InitAddressIndexes_def address_entries_def)
next
  case False
  let ?syms = "m_symbols st"
  let ?es = "RangeDataVector_Sort (address_entries ?syms)"
  let ?secs = "section_ranges_of (m_objfile st)"
  have sound: "data e < length ?syms \<and> GetRangeBase e = FileAddress (?syms ! data e) \<and>
     GetRangeSize e = GetByteSize (?syms ! data e)" if "e \<in> set ?es" for e
    using that address_entries_sound [of e ?syms] by (simp add: set_RangeDataVector_Sort)
  then have "list_all (\<lambda>e. data e < length ?syms) ?es"
    by (simp add: list_all_iff)
  from fill_sizes_total [OF this, of ?secs 0]
  obtain filled symbols' where fs: "fill_sizes ?secs 0 ?es ?syms = Inr (filled, symbols')"
    by fastforce
  note r = fill_sizes_result [OF fs]
  have len: "length ?es = length (address_entries ?syms)"
    by (simp add: RangeDataVector_Sort_def)
  have init: "InitAddressIndexes st = Inr (st\<lparr>m_file_addr_to_index_computed := True,
                          m_file_addr_to_index := RangeDataVector_Sort filled,
                          m_symbols := symbols'\<rparr>)"
    using False assms fs by (simp add: InitAddressIndexes_def)
  have "set (map data filled) = set (map data ?es)" using r by simp
  then have img: "data ` set filled = data ` set ?es" by simp
  have "data e < length symbols'" if "e \<in> set filled" for e
  proof -
    from that img obtain e' where "e' \<in> set ?es" "data e' = data e" by (metis imageE imageI)
    with sound [of e'] r show ?thesis by simp
  qed
  then have "list_all (\<lambda>e. data e < length symbols') (RangeDataVector_Sort filled)"
    by (simp add: list_all_iff set_RangeDataVector_Sort)
  moreover have "symbols' ! s = ?syms ! s \<or>
              (GetByteSize (?syms ! s) = 0 \<and>
               (\<exists>k < length (address_entries ?syms).
                  GetRangeBase (?es ! k) = FileAddress (?syms ! s) \<and>
                  GetByteSize (symbols' ! s) = synthesized_size ?secs ?es k))"
    if "s < length ?syms" for s
  proof -
    from r that consider "symbols' ! s = ?syms ! s"
      | k where "k < length ?es" "data (?es ! k) = s" "GetRangeSize (?es ! k) = 0"
          "GetByteSize (symbols' ! s) = synthesized_size ?secs ?es k"
      by blast
    then show ?thesis
    proof cases
      case 1
      then show ?thesis by simp
    next
      case (2 k)
      from 2(1) have "?es ! k \<in> set ?es" by simp
      from sound [OF this] 2 len show ?thesis by auto
    qed
  qed
  ultimately show ?thesis using init r by simp
qed


text \<open>
  The address index holds no entry left from an earlier state in a new table, after
  \<open>AddSymbol\<close>, and after \<open>InitAddressIndexes\<close> on a table of which that is true.
\<close>

lemma addr_index_wf_Symtab_new: "addr_index_wf (Symtab_new objfile)"
  by (simp add: addr_index_wf_def Symtab_new_def)

lemma addr_index_wf_AddSymbol: "addr_index_wf (snd (AddSymbol symbol st))"
  by (simp add: addr_index_wf_def AddSymbol_def Let_def)

lemma InitAddressIndexes_not_computed:
  "InitAddressIndexes st = Inr st' \<Longrightarrow> \<not> m_file_addr_to_index_computed st' \<Longrightarrow> st' = st"
  by (auto simp add: InitAddressIndexes_def Let_def split: if_splits sum.splits prod.splits)

lemma addr_index_wf_InitAddressIndexes:
  assumes wf: "addr_index_wf st" and init: "InitAddressIndexes st = Inr st'"
  shows "addr_index_wf st'"
proof (cases "m_file_addr_to_index_computed st'")
  case False
  with init have "st' = st" by (rule InitAddressIndexes_not_computed)
  with wf show ?thesis by simp
next
  case True
  show ?thesis
  proof (cases "m_file_addr_to_index_computed st")
    case computed: True
    with init have "st' = st" by (simp add: InitAddressIndexes_def)
    with wf show ?thesis by simp
  next
    case not_computed: False
    with wf have "m_file_addr_to_index st = []" by (simp add: addr_index_wf_def)
    from InitAddressIndexes_fresh [OF not_computed this] init
    have "list_all (\<lambda>e. data e < length (m_symbols st')) (m_file_addr_to_index st')"
      by auto
    with True show ?thesis by (simp add: addr_index_wf_def)
  qed
qed

text \<open>
  On a table whose address index holds no entry left from an earlier state: for a
  symbol whose size is zero, the size it has after \<open>InitAddressIndexes\<close> never reaches
  past the end of the section found to contain its address, and never past the address
  of any symbol with a greater address, so in particular not past the next one.
\<close>

lemma InitAddressIndexes_synthesized_size_bound:
  assumes wf: "addr_index_wf st"
    and i: "i < length (m_symbols st)"
    and zero: "GetByteSize (m_symbols st ! i) = 0"
  shows "\<exists>st'. InitAddressIndexes st = Inr st' \<and>
           (\<forall>sec. FindEntryThatContains (section_ranges_of (m_objfile st))
                    (FileAddress (m_symbols st ! i)) = Some sec \<longrightarrow>
                  unat (FileAddress (m_symbols st ! i)) + unat (GetByteSize (m_symbols st' ! i))
                    \<le> unat (GetRangeBase sec) + unat (GetRangeSize sec)) \<and>
           (\<forall>j < length (m_symbols st).
                  ValueIsAddress (m_symbols st ! j) \<and>
                  FileAddress (m_symbols st ! i) < FileAddress (m_symbols st ! j) \<longrightarrow>
                  unat (FileAddress (m_symbols st ! i)) + unat (GetByteSize (m_symbols st' ! i))
                    \<le> unat (FileAddress (m_symbols st ! j)))"
proof -
  let ?syms = "m_symbols st"
  let ?a = "FileAddress (?syms ! i)"
  let ?secs = "section_ranges_of (m_objfile st)"
  let ?es = "RangeDataVector_Sort (address_entries ?syms)"
  have untouched: ?thesis if init: "InitAddressIndexes st = Inr st'"
    and same: "GetByteSize (m_symbols st' ! i) = 0" for st'
  proof -
    have "unat ?a \<le> unat (GetRangeBase sec) + unat (GetRangeSize sec)"
      if "FindEntryThatContains ?secs ?a = Some sec" for sec
    proof -
      from that have "Contains sec ?a"
        by (auto simp: FindEntryThatContains_def find_Some_iff)
      from Contains_section_bound(1) [OF this] show ?thesis by simp
    qed
    with init same show ?thesis by (auto simp: word_less_nat_alt)
  qed
  show ?thesis
  proof (cases "m_file_addr_to_index_computed st")
    case True
    then have "InitAddressIndexes st = Inr st" by (simp add: InitAddressIndexes_def)
    from this zero show ?thesis by (rule untouched)
  next
    case False
    with wf have "m_file_addr_to_index st = []" by (simp add: addr_index_wf_def)
    from InitAddressIndexes_fresh [OF False this] i
    obtain st' where init: "InitAddressIndexes st = Inr st'"
      and alt: "m_symbols st' ! i = ?syms ! i \<or>
              (\<exists>k < length (address_entries ?syms).
                  GetRangeBase (?es ! k) = ?a \<and>
                  GetByteSize (m_symbols st' ! i) = synthesized_size ?secs ?es k)"
      by blast
    from alt show ?thesis
    proof
      assume "m_symbols st' ! i = ?syms ! i"
      with zero have "GetByteSize (m_symbols st' ! i) = 0" by simp
      from init this show ?thesis by (rule untouched)
    next
      assume "\<exists>k < length (address_entries ?syms).
                  GetRangeBase (?es ! k) = ?a \<and>
                  GetByteSize (m_symbols st' ! i) = synthesized_size ?secs ?es k"
      then obtain k where k: "k < length ?es" "GetRangeBase (?es ! k) = ?a"
        and sz: "GetByteSize (m_symbols st' ! i) = synthesized_size ?secs ?es k"
        by (auto simp: RangeDataVector_Sort_def)
      have sec: "unat ?a + unat (GetByteSize (m_symbols st' ! i))
                    \<le> unat (GetRangeBase sec) + unat (GetRangeSize sec)"
        if "FindEntryThatContains ?secs ?a = Some sec" for sec
        using synthesized_size_section_bound [of ?secs ?es k sec] that k sz by simp
      have nxt: "unat ?a + unat (GetByteSize (m_symbols st' ! i)) \<le> unat (FileAddress (?syms ! j))"
        if j: "j < length ?syms" "ValueIsAddress (?syms ! j)" "?a < FileAddress (?syms ! j)" for j
      proof -
        from address_entries_complete [OF j(1,2)]
        have "FileAddress (?syms ! j) \<in> set (map GetRangeBase ?es)"
          by (simp add: set_RangeDataVector_Sort)
        from synthesized_size_next_bound [OF sorted_RangeDataVector_Sort k(1) this, of ?secs] j(3) k(2) sz
        show ?thesis by simp
      qed
      from init sec nxt show ?thesis by blast
    qed
  qed
qed

lemma InitAddressIndexes_scenario_size:
  "map_sum id (\<lambda>st'. map GetByteSize (m_symbols st')) (InitAddressIndexes scenario_symtab)
     = Inr [0x10, 0x10, 0x100]"
  by code_simp

text \<open>
  C2. The size synthesized by \<open>InitAddressIndexes\<close> for a symbol without a size never
  reaches past the end of the section that contains the symbol. This fails on a table
  on which \<open>SectionFileAddressesChanged\<close> has been called: that function resets the flag
  of the address index and leaves the entries in it, and \<open>InitAddressIndexes\<close> appends
  to them. The first run leaves the entry at 0x2000 without a size; after the change the
  second run gives that entry the 0x1000 bytes that remain of the section at 0x2000 and
  writes them into the symbol, which is now at 0x1000 in a section that ends at 0x1020.
\<close>

theorem InitAddressIndexes_stale_entry_size:
  "map_sum id
     (\<lambda>st. (m_file_addr_to_index_computed st, map GetByteSize (m_symbols st),
            map (\<lambda>e. (GetRangeBase e, GetRangeSize e, data e)) (m_file_addr_to_index st)))
     (InitAddressIndexes unsectioned_symtab)
     = Inr (True, [0], [(0x2000, 0, 0)]) \<and>
   map_sum id
     (\<lambda>st. (m_file_addr_to_index_computed st, map FileAddress (m_symbols st),
            map GetByteSize (m_symbols st),
            FindEntryThatContains (section_ranges_of (m_objfile st)) 0x1000))
     (and_then (InitAddressIndexes unsectioned_symtab) (\<lambda>st. Inr (stale_entry_symtab st)))
     = Inr (False, [0x1000], [0], Some \<lparr>GetRangeBase = 0x1000, GetRangeSize = 0x20\<rparr>) \<and>
   map_sum id
     (\<lambda>st. (map FileAddress (m_symbols st), map GetByteSize (m_symbols st),
            map (\<lambda>e. (GetRangeBase e, GetRangeSize e, data e)) (m_file_addr_to_index st)))
     (and_then (InitAddressIndexes unsectioned_symtab)
        (\<lambda>st. InitAddressIndexes (stale_entry_symtab st)))
     = Inr ([0x1000], [0x1000], [(0x1000, 0x20, 0), (0x2000, 0x1000, 0)])"
  by code_simp




text \<open>
  The condition on the address index cannot be dropped: when the symbol of the table
  built before the sections were known is given the size 8 and the sections then change,
  the entry left in the index is sized from the section at 0x2000, and the size 8 is
  replaced by 0x1000.
\<close>

lemma InitAddressIndexes_stale_entry_overwrites_size:
  "map_sum id (\<lambda>st. map GetByteSize (m_symbols st))
     (and_then (InitAddressIndexes unsectioned_symtab)
        (\<lambda>st. InitAddressIndexes
                (stale_entry_symtab (st\<lparr>m_symbols := map (SetByteSize 8) (m_symbols st)\<rparr>))))
     = Inr [0x1000]"
  by code_simp

section \<open>Properties of the lookups\<close>

declare unique_loop.simps [simp del]

lemma unique_loop_take:
  "result < first \<Longrightarrow> first \<le> length xs \<Longrightarrow>
     take (snd (unique_loop xs result first)) (fst (unique_loop xs result first))
       = take result xs @ remdups_adj (xs ! result # drop first xs)"
proof (induction xs result first rule: unique_loop.induct)
  case (1 xs result first)
  show ?case
  proof (cases "first < length xs")
    case False
    with "1.prems" have "first = length xs" by simp
    with "1.prems" show ?thesis
      by (subst (1 2) unique_loop.simps) (simp add: take_Suc_conv_app_nth)
  next
    case True
    note d = Cons_nth_drop_Suc [OF True, symmetric]
    show ?thesis
    proof (cases "xs ! result = xs ! first")
      case same: True
      from "1.IH"(2) [OF True] same "1.prems" True
      have "take (snd (unique_loop xs result (Suc first))) (fst (unique_loop xs result (Suc first)))
              = take result xs @ remdups_adj (xs ! result # drop (Suc first) xs)"
        by simp
      with same True show ?thesis
        by (subst (1 2) unique_loop.simps) (simp add: d)
    next
      case diff: False
      let ?xs' = "xs[Suc result := xs ! first]"
      have xs': "(if Suc result \<noteq> first then ?xs' else xs) = ?xs'"
        by (auto simp: list_update_same_conv)
      from "1.IH"(1) [OF True] diff "1.prems" True
      have "take (snd (unique_loop ?xs' (Suc result) (Suc first))) (fst (unique_loop ?xs' (Suc result) (Suc first)))
              = take (Suc result) ?xs' @ remdups_adj (?xs' ! Suc result # drop (Suc first) ?xs')"
        by (simp add: xs')
      moreover have "take (Suc result) ?xs' = take result xs @ [xs ! result]"
        using "1.prems" True by (simp add: take_Suc_conv_app_nth)
      moreover have "?xs' ! Suc result = xs ! first" using "1.prems" True by simp
      moreover have "drop (Suc first) ?xs' = drop (Suc first) xs" using "1.prems" by simp
      ultimately show ?thesis using diff True
        by (subst (1 2) unique_loop.simps) (simp add: d xs')
    qed
  qed
qed

lemma std_unique_erase: "take (snd (std_unique xs)) (fst (std_unique xs)) = remdups_adj xs"
proof (cases xs)
  case Nil
  then show ?thesis by (simp add: std_unique_def)
next
  case (Cons x ys)
  then have "take (snd (unique_loop xs 0 1)) (fst (unique_loop xs 0 1))
               = take 0 xs @ remdups_adj (xs ! 0 # drop 1 xs)"
    by (intro unique_loop_take) simp_all
  with Cons show ?thesis by (simp add: std_unique_def)
qed

lemma sort_erase_unique_eq: "sort_erase_unique xs = remdups_adj (sort xs)"
  by (simp add: sort_erase_unique_def Let_def split_def std_unique_erase)

lemma distinct_remdups_adj_sorted:
  fixes xs :: "'a::linorder list"
  shows "sorted xs \<Longrightarrow> distinct (remdups_adj xs)"
  by (induction xs rule: remdups_adj.induct) auto

lemma sort_erase_unique_props:
  "sorted (sort_erase_unique xs)" "distinct (sort_erase_unique xs)"
  "set (sort_erase_unique xs) = set xs"
  by (simp_all add: sort_erase_unique_eq distinct_remdups_adj_sorted)


lemma InitNameIndexes_if_not_computed:
  "(if b \<and> \<not> m_name_indexes_computed st then InitNameIndexes langs st else st)
     = (if b then InitNameIndexes langs st else st)"
  by (simp add: InitNameIndexes_def)

lemma InitNameIndexes_unless_computed:
  "(if \<not> m_name_indexes_computed st then InitNameIndexes langs st else st) = InitNameIndexes langs st"
  by (simp add: InitNameIndexes_def)

lemma InitNameIndexes_twice:
  "InitNameIndexes langs (InitNameIndexes langs st) = InitNameIndexes langs st"
  by (simp add: InitNameIndexes_def Let_def)

lemma m_symbols_InitNameIndexes: "m_symbols (InitNameIndexes langs st) = m_symbols st"
  by (simp add: InitNameIndexes_def Let_def)

lemma is_function_symbol_InitNameIndexes:
  "is_function_symbol (InitNameIndexes langs st) = is_function_symbol st"
  by (intro ext) (simp add: is_function_symbol_def SymbolAtIndex_def m_symbols_InitNameIndexes)

lemma FindAllSymbolsWithNameAndType_Any:
  "FindAllSymbolsWithNameAndType langs name eSymbolTypeAny [] st =
     (let st' = InitNameIndexes langs st;
          found = (if name \<noteq> [] then GetValues name (m_name_to_index st') else [])
      in Inr (length found, found, st'))"
  by (simp add: FindAllSymbolsWithNameAndType_def AppendSymbolIndexesWithNameAndType_def
      AppendSymbolIndexesWithName_def erase_other_types_def Let_def
      InitNameIndexes_unless_computed InitNameIndexes_twice)

lemma values_for_name_set: "set (values_for_name name m) = set (GetValues name m)"
  by (cases m) (simp_all add: values_for_name_def GetValues_def)

lemma computed_InitNameIndexes: "m_name_indexes_computed (InitNameIndexes langs st)"
  by (simp add: InitNameIndexes_def Let_def)

lemma collect_function_indexes_eq:
  "\<exists>xs. collect_function_indexes langs name name_type_mask st
          = Inr (xs, if lookups_selected name_type_mask then InitNameIndexes langs st else st) \<and>
        set xs = function_symbol_matches name name_type_mask
                   (if lookups_selected name_type_mask then InitNameIndexes langs st else st)"
  by (auto simp: collect_function_indexes_def FindAllSymbolsWithNameAndType_Any Let_def
      InitNameIndexes_if_not_computed InitNameIndexes_twice function_symbol_matches_def
      lookups_selected_def values_for_name_set is_function_symbol_InitNameIndexes
      computed_InitNameIndexes InitNameIndexes_unless_computed)


lemma fold_AppendIfUnique:
  "distinct xs \<Longrightarrow>
     fold (\<lambda>idx acc. case SymbolAtIndex st idx of None \<Rightarrow> acc | Some symbol \<Rightarrow> AppendIfUnique idx acc) xs acc
       = acc @ filter (\<lambda>i. i < length (m_symbols st) \<and> i \<notin> set acc) xs"
proof (induction xs arbitrary: acc)
  case Nil
  then show ?case by simp
next
  case (Cons x xs)
  from Cons.prems have x: "x \<notin> set xs" and d: "distinct xs" by simp_all
  from x have same: "filter (\<lambda>i. i < length (m_symbols st) \<and> i \<notin> set (acc @ [x])) xs
      = filter (\<lambda>i. i < length (m_symbols st) \<and> i \<notin> set acc) xs"
    by (intro filter_cong) auto
  show ?case
    using Cons.IH [OF d] same by (simp add: SymbolAtIndex_def AppendIfUnique_def)
qed

lemma SymbolIndicesToSymbolContextList_distinct:
  "distinct xs \<Longrightarrow>
     SymbolIndicesToSymbolContextList st xs [] = filter (\<lambda>i. i < length (m_symbols st)) xs"
  by (simp add: SymbolIndicesToSymbolContextList_def fold_AppendIfUnique)

text \<open>
  C8. For a mask without the auto bit, \<open>FindFunctionSymbols\<close> (called with an empty
  context list) returns the positions matched by the lookups its mask selects, as a
  list in ascending order without repetition, so that a symbol matched by several
  lookups appears once; the count is the length of that list, and the context list
  holds those of the positions that are symbols of the table. On the scenario table
  the lookup of \<open>foo\<close> as a method returns one context, the symbol at position 0, whose
  id is 1.
\<close>

theorem FindFunctionSymbols_union:
  "(eFunctionNameTypeAuto \<notin> name_type_mask \<longrightarrow>
      (\<exists>unique_indexes st'.
         FindFunctionSymbols langs name name_type_mask [] st
           = Inr (length unique_indexes,
                  filter (\<lambda>i. i < length (m_symbols st')) unique_indexes, st') \<and>
         st' = (if lookups_selected name_type_mask then InitNameIndexes langs st else st) \<and>
         sorted unique_indexes \<and> distinct unique_indexes \<and>
         set unique_indexes = function_symbol_matches name name_type_mask st')) \<and>
   (\<exists>st'. FindFunctionSymbols scenario_languages ''foo'' {eFunctionNameTypeMethod} []
             scenario_symtab = Inr (1, [0], st') \<and>
          GetID (m_symbols st' ! 0) = 1)"
proof
  show "eFunctionNameTypeAuto \<notin> name_type_mask \<longrightarrow>
      (\<exists>unique_indexes st'.
         FindFunctionSymbols langs name name_type_mask [] st
           = Inr (length unique_indexes,
                  filter (\<lambda>i. i < length (m_symbols st')) unique_indexes, st') \<and>
         st' = (if lookups_selected name_type_mask then InitNameIndexes langs st else st) \<and>
         sorted unique_indexes \<and> distinct unique_indexes \<and>
         set unique_indexes = function_symbol_matches name name_type_mask st')"
  proof
    assume no_auto: "eFunctionNameTypeAuto \<notin> name_type_mask"
    define st' where "st' = (if lookups_selected name_type_mask then InitNameIndexes langs st else st)"
    from collect_function_indexes_eq [of langs name name_type_mask st]
    obtain xs where xs: "collect_function_indexes langs name name_type_mask st = Inr (xs, st')"
      "set xs = function_symbol_matches name name_type_mask st'"
      by (auto simp: st'_def)
    let ?u = "sort_erase_unique xs"
    note u = sort_erase_unique_props [of xs]
    have "FindFunctionSymbols langs name name_type_mask [] st
            = Inr (length ?u, SymbolIndicesToSymbolContextList st' ?u [], st')"
    proof (cases "xs = []")
      case True
      then have "?u = []" by (simp add: sort_erase_unique_eq)
      with True no_auto xs(1) show ?thesis
        by (simp add: FindFunctionSymbols_def SymbolIndicesToSymbolContextList_def)
    next
      case False
      with no_auto xs(1) show ?thesis
        by (simp add: FindFunctionSymbols_def Let_def)
    qed
    with u xs(2) have "FindFunctionSymbols langs name name_type_mask [] st
           = Inr (length ?u, filter (\<lambda>i. i < length (m_symbols st')) ?u, st') \<and>
         st' = (if lookups_selected name_type_mask then InitNameIndexes langs st else st) \<and>
         sorted ?u \<and> distinct ?u \<and>
         set ?u = function_symbol_matches name name_type_mask st'"
      by (simp add: SymbolIndicesToSymbolContextList_distinct st'_def)
    then show "\<exists>unique_indexes st'.
         FindFunctionSymbols langs name name_type_mask [] st
           = Inr (length unique_indexes,
                  filter (\<lambda>i. i < length (m_symbols st')) unique_indexes, st') \<and>
         st' = (if lookups_selected name_type_mask then InitNameIndexes langs st else st) \<and>
         sorted unique_indexes \<and> distinct unique_indexes \<and>
         set unique_indexes = function_symbol_matches name name_type_mask st'"
      by blast
  qed
next
  have "case FindFunctionSymbols scenario_languages ''foo'' {eFunctionNameTypeMethod} []
             scenario_symtab of
          Inl f \<Rightarrow> False
        | Inr (n, sc_list, st') \<Rightarrow> n = 1 \<and> sc_list = [0] \<and> GetID (m_symbols st' ! 0) = 1"
    by code_simp
  then show "\<exists>st'. FindFunctionSymbols scenario_languages ''foo'' {eFunctionNameTypeMethod} []
             scenario_symtab = Inr (1, [0], st') \<and>
          GetID (m_symbols st' ! 0) = 1"
    by (auto split: sum.splits)
qed

theorem FindFunctionSymbols_union_witness:
  "eFunctionNameTypeAuto \<notin> {eFunctionNameTypeMethod} \<and>
   (\<exists>unique_indexes st'.
         FindFunctionSymbols scenario_languages ''foo'' {eFunctionNameTypeMethod} [] scenario_symtab
           = Inr (length unique_indexes,
                  filter (\<lambda>i. i < length (m_symbols st')) unique_indexes, st') \<and>
         st' = InitNameIndexes scenario_languages scenario_symtab \<and>
         sorted unique_indexes \<and> distinct unique_indexes \<and>
         set unique_indexes = function_symbol_matches ''foo'' {eFunctionNameTypeMethod} st')"
  using FindFunctionSymbols_union
    [of "{eFunctionNameTypeMethod}" scenario_languages "''foo''" scenario_symtab]
  by (simp add: lookups_selected_def)

text \<open>
  On a table without symbols (and with empty indexes) the lookups other than
  \<open>FindSymbolByID\<close> return null or nothing and none fails: by position, by address
  (starting at, containing, all containing), by type, by name, and for function names.
  \<open>InitAddressIndexes\<close> and \<open>CalculateSymbolSizes\<close> return at once and leave the table
  as it is.
\<close>

lemma lookups_on_empty_table:
  assumes "m_symbols st = []" and "m_file_addr_to_index st = []"
    and "m_name_to_index st = []" and "m_basename_to_index st = []"
    and "m_method_to_index st = []" and "m_selector_to_index st = []"
  shows "SymbolAtIndex st idx = None \<and>
         InitAddressIndexes st = Inr st \<and>
         CalculateSymbolSizes st = Inr st \<and>
         FindSymbolAtFileAddress st file_addr = Inr (None, st) \<and>
         FindSymbolContainingFileAddress st file_addr = Inr (None, st) \<and>
         ForEachSymbolContainingFileAddress st file_addr callback = Inr ([], st) \<and>
         AppendSymbolIndexesWithType st symbol_type [] start_idx end_index = (0, []) \<and>
         (\<exists>st'. AppendSymbolIndexesWithName langs name [] st = (0, [], st') \<and> m_symbols st' = []) \<and>
         (\<exists>st'. FindAllSymbolsWithNameAndType langs name symbol_type [] st = Inr (0, [], st') \<and>
                m_symbols st' = []) \<and>
         (eFunctionNameTypeAuto \<notin> name_type_mask \<longrightarrow>
            (\<exists>st'. FindFunctionSymbols langs name name_type_mask [] st = Inr (0, [], st') \<and>
                   m_symbols st' = []))"
proof -
  have init: "InitAddressIndexes st = Inr st"
    using assms(1) by (simp add: InitAddressIndexes_def)
  have names: "InitNameIndexes langs st = st\<lparr>m_name_indexes_computed := True\<rparr>"
    if "\<not> m_name_indexes_computed st"
    using that assms
    by (simp add: InitNameIndexes_def first_pass_def second_pass_def UniqueCStringMap_Sort_def)
  have names': "m_symbols (InitNameIndexes langs st) = [] \<and>
      m_name_to_index (InitNameIndexes langs st) = [] \<and>
      m_basename_to_index (InitNameIndexes langs st) = [] \<and>
      m_method_to_index (InitNameIndexes langs st) = [] \<and>
      m_selector_to_index (InitNameIndexes langs st) = []"
    using assms names by (cases "m_name_indexes_computed st") (simp_all add: InitNameIndexes_def)
  have append: "\<exists>st'. AppendSymbolIndexesWithName langs name [] st = (0, [], st') \<and> m_symbols st' = []"
    using assms names'
    by (simp add: AppendSymbolIndexesWithName_def InitNameIndexes_unless_computed GetValues_def Let_def)
  have find_all: "\<exists>st'. FindAllSymbolsWithNameAndType langs name symbol_type [] st = Inr (0, [], st') \<and>
                m_symbols st' = []"
    using assms names'
    by (simp add: FindAllSymbolsWithNameAndType_def AppendSymbolIndexesWithNameAndType_def
        AppendSymbolIndexesWithName_def InitNameIndexes_unless_computed InitNameIndexes_twice
        GetValues_def Let_def)
  have funcs: "\<exists>st'. FindFunctionSymbols langs name name_type_mask [] st = Inr (0, [], st') \<and>
                   m_symbols st' = []" if no_auto: "eFunctionNameTypeAuto \<notin> name_type_mask"
  proof -
    define st' where "st' = (if lookups_selected name_type_mask then InitNameIndexes langs st else st)"
    from collect_function_indexes_eq [of langs name name_type_mask st]
    obtain xs where xs: "collect_function_indexes langs name name_type_mask st = Inr (xs, st')"
      "set xs = function_symbol_matches name name_type_mask st'"
      by (auto simp: st'_def)
    from names' assms have e: "m_symbols st' = []" "m_name_to_index st' = []"
      "m_basename_to_index st' = []" "m_method_to_index st' = []" "m_selector_to_index st' = []"
      by (simp_all add: st'_def)
    then have "function_symbol_matches name name_type_mask st' = {}"
      by (simp add: function_symbol_matches_def GetValues_def)
    with xs(2) have "xs = []" by simp
    with no_auto xs(1) have "FindFunctionSymbols langs name name_type_mask [] st = Inr (0, [], st')"
      by (simp add: FindFunctionSymbols_def SymbolIndicesToSymbolContextList_def
          sort_erase_unique_eq)
    with e(1) show ?thesis by blast
  qed
  show ?thesis
    using assms init append find_all funcs
    by (simp add: SymbolAtIndex_def CalculateSymbolSizes_def
        FindSymbolAtFileAddress_def FindSymbolContainingFileAddress_def
        ForEachSymbolContainingFileAddress_def FindEntryStartsAt_def FindEntryThatContains_def
        FindEntryIndexesThatContain_def AppendSymbolIndexesWithType_def)
qed

text \<open>
  C9. A query on a table without symbols returns null or nothing by an early return.
  \<open>FindSymbolByID\<close> does not: it has no test for an empty table, and it subscripts the
  symbol vector at 0 for the base of the search, which on a table without symbols is a
  read out of range (\<open>SymbolAtIndex\<close>, \<open>Resize\<close> and \<open>GetIndexForSymbol\<close> test the vector
  first). On the scenario table the same function finds the symbol with id 2 at
  position 1.
\<close>

theorem FindSymbolByID_empty_table:
  "FindSymbolByID (Symtab_new objfile) symbol_uid = Inl OutOfRange \<and>
   FindSymbolByID scenario_symtab 2 = Inr (Some 1)"
proof
  show "FindSymbolByID (Symtab_new objfile) symbol_uid = Inl OutOfRange"
    by (simp add: FindSymbolByID_def Symtab_new_def)
next
  show "FindSymbolByID scenario_symtab 2 = Inr (Some 1)"
    by code_simp
qed

section \<open>Properties of the dynamic type resolution\<close>

lemma dynamic_address_for_result:
  "\<exists>b a. dynamic_address_for env address_point_address tn type_sp = Inr (b, tn, a) \<and>
         (AreTypesSame env type_sp \<longrightarrow> \<not> b)"
  by (auto simp add: dynamic_address_for_def Let_def split: option.splits)

lemma find_first_satisfying:
  "P t \<Longrightarrow> list_all (\<lambda>y. \<not> P y) ys \<Longrightarrow> find P (ys @ t # zs) = Some t"
  by (induction ys) simp_all

lemma find_none_satisfying: "list_all (\<lambda>y. \<not> P y) xs \<Longrightarrow> find P xs = None"
  by (induction xs) simp_all

text \<open>
  C7. Once \<open>GetDynamicTypeAndAddress\<close> has read the class name off the vtable symbol
  and looked the name up: with no match it returns false; with one match that type is the
  one recorded; with several matches the first of them that is a C++ class type is
  recorded, and if none of them is one the function returns false; and whenever the
  recorded type is the same as the static type of the value the function returns false.
  The lookups, the type predicates and the memory of the process are the fields of the
  environment \<open>env\<close>.
\<close>

theorem GetDynamicTypeAndAddress_type_matches:
  assumes reached: "vtable_class_name env = Inr (Some (address_point_address, class_name))"
    and found: "find_class_types env address_point_address class_name = (num_matches, class_types)"
  shows "(num_matches = 0 \<longrightarrow>
            GetDynamicTypeAndAddress env
              = Inr (False, \<lparr>GetName = class_name, GetTypeSP = None\<rparr>, None)) \<and>
         (\<forall>t. num_matches = 1 \<and> GetTypeAtIndex class_types 0 = Some t \<longrightarrow>
            (\<exists>b a. GetDynamicTypeAndAddress env
                      = Inr (b, \<lparr>GetName = class_name, GetTypeSP = Some t\<rparr>, a) \<and>
                    (AreTypesSame env t \<longrightarrow> \<not> b))) \<and>
         (\<forall>t ys zs. 1 < num_matches \<and> take num_matches class_types = ys @ t # zs \<and>
              IsCXXClassType env t \<and> list_all (\<lambda>y. \<not> IsCXXClassType env y) ys \<longrightarrow>
            (\<exists>b a. GetDynamicTypeAndAddress env
                      = Inr (b, \<lparr>GetName = class_name, GetTypeSP = Some t\<rparr>, a) \<and>
                    (AreTypesSame env t \<longrightarrow> \<not> b))) \<and>
         (1 < num_matches \<and>
              list_all (\<lambda>y. \<not> IsCXXClassType env y) (take num_matches class_types) \<longrightarrow>
            GetDynamicTypeAndAddress env
              = Inr (False, \<lparr>GetName = class_name, GetTypeSP = None\<rparr>, None))"
proof (intro conjI allI impI)
  assume "num_matches = 0"
  with reached found show "GetDynamicTypeAndAddress env
              = Inr (False, \<lparr>GetName = class_name, GetTypeSP = None\<rparr>, None)"
    by (simp add: GetDynamicTypeAndAddress_def)
next
  fix t
  assume "num_matches = 1 \<and> GetTypeAtIndex class_types 0 = Some t"
  with reached found have "GetDynamicTypeAndAddress env =
      dynamic_address_for env address_point_address
        \<lparr>GetName = class_name, GetTypeSP = Some t\<rparr> t"
    by (simp add: GetDynamicTypeAndAddress_def)
  with dynamic_address_for_result
    [of env address_point_address "\<lparr>GetName = class_name, GetTypeSP = Some t\<rparr>" t]
  show "\<exists>b a. GetDynamicTypeAndAddress env
                      = Inr (b, \<lparr>GetName = class_name, GetTypeSP = Some t\<rparr>, a) \<and>
                    (AreTypesSame env t \<longrightarrow> \<not> b)"
    by simp
next
  fix t ys zs
  assume a: "1 < num_matches \<and> take num_matches class_types = ys @ t # zs \<and>
              IsCXXClassType env t \<and> list_all (\<lambda>y. \<not> IsCXXClassType env y) ys"
  then have "first_cxx_class_type env num_matches class_types = Some t"
    by (simp add: first_cxx_class_type_def find_first_satisfying)
  with a reached found have "GetDynamicTypeAndAddress env =
      dynamic_address_for env address_point_address
        \<lparr>GetName = class_name, GetTypeSP = Some t\<rparr> t"
    by (simp add: GetDynamicTypeAndAddress_def)
  with dynamic_address_for_result
    [of env address_point_address "\<lparr>GetName = class_name, GetTypeSP = Some t\<rparr>" t]
  show "\<exists>b a. GetDynamicTypeAndAddress env
                      = Inr (b, \<lparr>GetName = class_name, GetTypeSP = Some t\<rparr>, a) \<and>
                    (AreTypesSame env t \<longrightarrow> \<not> b)"
    by simp
next
  assume a: "1 < num_matches \<and>
              list_all (\<lambda>y. \<not> IsCXXClassType env y) (take num_matches class_types)"
  then have "first_cxx_class_type env num_matches class_types = None"
    by (simp add: first_cxx_class_type_def find_none_satisfying)
  with a reached found show "GetDynamicTypeAndAddress env
              = Inr (False, \<lparr>GetName = class_name, GetTypeSP = None\<rparr>, None)"
    by (simp add: GetDynamicTypeAndAddress_def)
qed

theorem GetDynamicTypeAndAddress_type_matches_witness:
  "vtable_class_name derived_env
     = Inr (Some (\<lparr>addr_section = Some 0, addr_offset = 0x2010\<rparr>, ''Derived'')) \<and>
   find_class_types derived_env \<lparr>addr_section = Some 0, addr_offset = 0x2010\<rparr> ''Derived''
     = (2, [7, 9]) \<and>
   IsCXXClassType derived_env 9 \<and> list_all (\<lambda>y. \<not> IsCXXClassType derived_env y) [7] \<and>
   (\<exists>b a. GetDynamicTypeAndAddress derived_env
             = Inr (b, \<lparr>GetName = ''Derived'', GetTypeSP = Some 9\<rparr>, a))"
proof -
  have reached: "vtable_class_name derived_env
     = Inr (Some (\<lparr>addr_section = Some 0, addr_offset = 0x2010\<rparr>, ''Derived''))"
    by code_simp
  have found:
    "find_class_types derived_env \<lparr>addr_section = Some 0, addr_offset = 0x2010\<rparr> ''Derived''
     = (2, [7, 9])"
    by code_simp
  have cls: "IsCXXClassType derived_env 9"
    "list_all (\<lambda>y. \<not> IsCXXClassType derived_env y) [7]"
    by (simp_all add: derived_env_def)
  have shape: "(1::nat) < 2 \<and> take 2 [7, 9::nat] = [7] @ 9 # [] \<and>
      IsCXXClassType derived_env 9 \<and> list_all (\<lambda>y. \<not> IsCXXClassType derived_env y) [7]"
    using cls by simp
  from GetDynamicTypeAndAddress_type_matches [OF reached found]
  have "\<forall>t ys zs. 1 < (2::nat) \<and> take 2 [7, 9::nat] = ys @ t # zs \<and>
              IsCXXClassType derived_env t \<and>
              list_all (\<lambda>y. \<not> IsCXXClassType derived_env y) ys \<longrightarrow>
            (\<exists>b a. GetDynamicTypeAndAddress derived_env
                      = Inr (b, \<lparr>GetName = ''Derived'', GetTypeSP = Some t\<rparr>, a) \<and>
                    (AreTypesSame derived_env t \<longrightarrow> \<not> b))"
    by blast
  from this shape
  have "\<exists>b a. GetDynamicTypeAndAddress derived_env
             = Inr (b, \<lparr>GetName = ''Derived'', GetTypeSP = Some 9\<rparr>, a)"
    by blast
  with reached found cls show ?thesis by simp
qed

section \<open>Properties of the dispatch introspection handlers\<close>

lemma read_return_buffer_success:
  assumes "read_return_buffer inferior a = (p, sz, n)" and "p \<noteq> LLDB_INVALID_ADDRESS"
  shows "snd (ReadUnsignedIntegerFromMemory inferior a LLDB_INVALID_ADDRESS) \<and>
         snd (ReadUnsignedIntegerFromMemory inferior (a + 8) 0) \<and>
         snd (ReadUnsignedIntegerFromMemory inferior (a + 16) 0)"
  using assms
  by (auto simp add: read_return_buffer_def Let_def split: prod.splits if_splits)

lemma read_return_buffer_failure:
  assumes "read_return_buffer inferior a = (p, sz, n)" and "p = LLDB_INVALID_ADDRESS"
    and "\<And>b. \<not> snd (ReadUnsignedIntegerFromMemory inferior b 0) \<Longrightarrow>
              fst (ReadUnsignedIntegerFromMemory inferior b 0) = 0"
  shows "n = 0"
  using assms(1,2) assms(3) [of "a + 16"]
  by (auto simp add: read_return_buffer_def Let_def split: prod.splits if_splits)

lemma SetupGetQueuesFunction_buffer:
  "SetupGetQueuesFunction inferior h = Inr (args_addr, h') \<Longrightarrow>
   m_get_queues_return_buffer_addr h' = m_get_queues_return_buffer_addr h"
  by (auto simp add: SetupGetQueuesFunction_def make_get_queues_caller_def Let_def
      split: option.splits prod.splits if_splits)

lemma GetCurrentQueues_valid_pointer:
  assumes "GetCurrentQueues inferior h = Inr (r, h')"
    and "queues_buffer_ptr r \<noteq> LLDB_INVALID_ADDRESS"
  shows "SafeToCallFunctions inferior \<and>
         m_get_queues_return_buffer_addr h' \<noteq> LLDB_INVALID_ADDRESS \<and>
         (\<exists>impl caller args_addr. m_get_queues_impl_code_up h' = Some impl \<and>
             GetFunctionCaller impl = Some caller \<and> ExecuteFunction caller args_addr) \<and>
         snd (ReadUnsignedIntegerFromMemory inferior
                (m_get_queues_return_buffer_addr h') LLDB_INVALID_ADDRESS) \<and>
         snd (ReadUnsignedIntegerFromMemory inferior
                (m_get_queues_return_buffer_addr h' + 8) 0) \<and>
         snd (ReadUnsignedIntegerFromMemory inferior
                (m_get_queues_return_buffer_addr h' + 16) 0)"
  using assms
  by (auto simp add: GetCurrentQueues_def Let_def
      dest!: SetupGetQueuesFunction_buffer
      dest: read_return_buffer_success
      split: option.splits prod.splits if_splits sum.splits)

lemma GetCurrentQueues_failure_count:
  assumes "GetCurrentQueues inferior h = Inr (r, h')"
    and "queues_buffer_ptr r = LLDB_INVALID_ADDRESS"
    and "\<And>b. \<not> snd (ReadUnsignedIntegerFromMemory inferior b 0) \<Longrightarrow>
              fst (ReadUnsignedIntegerFromMemory inferior b 0) = 0"
  shows "count_queues r = 0"
  using assms(1,2)
  by (auto simp add: GetCurrentQueues_def Let_def
      dest: read_return_buffer_failure [OF _ _ assms(3)]
      split: option.splits prod.splits if_splits sum.splits)

lemma GetPendingItems_faults_when_install_fails:
  assumes "SafeToCallFunctions inferior"
    and "m_get_pending_items_return_buffer_addr h \<noteq> LLDB_INVALID_ADDRESS \<or>
         snd (AllocateMemory inferior) \<and> fst (AllocateMemory inferior) \<noteq> LLDB_INVALID_ADDRESS"
    and "m_get_pending_items_impl_code h = None"
    and "GetUtilityFunctionForLanguage inferior = (Some impl, False)"
    and "\<not> Install impl"
  shows "GetPendingItems inferior h = Inl NullDereference"
  using assms
  by (auto simp add: GetPendingItems_def SetupGetPendingItemsFunction_def Let_def
      split: option.splits prod.splits if_splits sum.splits)

text \<open>
  C10. A call of a handler that takes a failure path returns a result whose buffer
  pointer is \<open>LLDB_INVALID_ADDRESS\<close> and whose count is 0. This holds of every
  result that \<open>GetCurrentQueues\<close> returns (the lemmas above, the count when a failed
  read returns its fail value), and not of \<open>GetPendingItems\<close>: on a
  handler that has not been used yet, with a thread that is safe, a return buffer that is
  allocated and a utility function that is created, a failed installation resets
  \<open>m_get_pending_items_impl_code\<close>, and the call then fetches the function caller
  through that null pointer instead of returning a result. \<open>GetCurrentQueues\<close> on the
  same inferior returns the invalid pointer and the count 0.
\<close>

theorem GetPendingItems_install_failure:
  "GetPendingItems install_failure_inferior fresh_pending_items_handler = Inl NullDereference \<and>
   GetCurrentQueues install_failure_inferior fresh_queues_handler =
     Inr (\<lparr>queues_buffer_ptr = LLDB_INVALID_ADDRESS, queues_buffer_size = 0,
            count_queues = 0\<rparr>,
          \<lparr>m_get_queues_impl_code_up = None, m_get_queues_return_buffer_addr = 0x7000\<rparr>)"
  by code_simp

theorem GetPendingItems_install_failure_witness:
  "SafeToCallFunctions install_failure_inferior \<and>
   AllocateMemory install_failure_inferior = (0x7000, True) \<and>
   GetUtilityFunctionForLanguage install_failure_inferior = (Some uninstallable_utility, False) \<and>
   \<not> Install uninstallable_utility \<and>
   m_get_pending_items_impl_code fresh_pending_items_handler = None \<and>
   (\<nexists>r. GetPendingItems install_failure_inferior fresh_pending_items_handler = Inr r)"
  using GetPendingItems_install_failure
  by (simp add: install_failure_inferior_def uninstallable_utility_def
      fresh_pending_items_handler_def)

end
